theory Spec2Isabelle
  imports Complex_Main
begin

section \<open>Python values\<close>

text \<open>
  \<^verbatim>\<open>request.json\<close> is whatever the JSON parser returns: \<^verbatim>\<open>None\<close>, a bool, an int, a
  float, a str, a list, or a dict with str keys. A str is written as its UTF-8 bytes,
  so it is one that has an encoding. A float is written by the text \<^verbatim>\<open>str\<close> gives for
  it, which names the float. A dict is the list of its items; the keys of a parsed dict
  are distinct, and a lookup takes the first binding of a key.
\<close>

datatype pyval =
    PyNone
  | PyBool bool
  | PyInt int
  | PyFloat string
  | PyStr string
  | PyList "pyval list"
  | PyDict "(string \<times> pyval) list"

datatype py_error =
    TypeError | AttributeError | OverflowError | InterfaceError | IntegrityError | OperationalError

text \<open>Truth value testing, as \<^verbatim>\<open>not x\<close> and \<^verbatim>\<open>if x\<close> use it.\<close>

fun truthy :: "pyval \<Rightarrow> bool" where
  "truthy PyNone = False"
| "truthy (PyBool b) = b"
| "truthy (PyInt i) = (i \<noteq> 0)"
| "truthy (PyFloat r) = (r \<noteq> ''0.0'' \<and> r \<noteq> ''-0.0'')"
| "truthy (PyStr s) = (s \<noteq> [])"
| "truthy (PyList xs) = (xs \<noteq> [])"
| "truthy (PyDict kvs) = (kvs \<noteq> [])"

definition is_substring :: "string \<Rightarrow> string \<Rightarrow> bool" where
  "is_substring p s = list_ex (\<lambda>i. take (length p) (drop i s) = p) [0..<Suc (length s)]"

text \<open>
  \<^verbatim>\<open>k in x\<close> for a str \<open>k\<close>: a key of a dict, an element of a list, a substring of a
  str; \<^verbatim>\<open>TypeError\<close> on a value that is not a container.
\<close>

fun py_contains :: "string \<Rightarrow> pyval \<Rightarrow> py_error + bool" where
  "py_contains k (PyDict kvs) = Inr (map_of kvs k \<noteq> None)"
| "py_contains k (PyList xs) = Inr (PyStr k \<in> set xs)"
| "py_contains k (PyStr s) = Inr (is_substring k s)"
| "py_contains k PyNone = Inl TypeError"
| "py_contains k (PyBool b) = Inl TypeError"
| "py_contains k (PyInt i) = Inl TypeError"
| "py_contains k (PyFloat r) = Inl TypeError"

text \<open>\<^verbatim>\<open>x.get(k, d)\<close>: only a dict has the method.\<close>

definition dict_get :: "(string \<times> pyval) list \<Rightarrow> string \<Rightarrow> pyval \<Rightarrow> pyval" where
  "dict_get kvs k d = (case map_of kvs k of None \<Rightarrow> d | Some v \<Rightarrow> v)"

fun py_get :: "pyval \<Rightarrow> string \<Rightarrow> pyval \<Rightarrow> py_error + pyval" where
  "py_get (PyDict kvs) k d = Inr (dict_get kvs k d)"
| "py_get PyNone k d = Inl AttributeError"
| "py_get (PyBool b) k d = Inl AttributeError"
| "py_get (PyInt i) k d = Inl AttributeError"
| "py_get (PyFloat r) k d = Inl AttributeError"
| "py_get (PyStr s) k d = Inl AttributeError"
| "py_get (PyList xs) k d = Inl AttributeError"

definition py_bind :: "py_error + 'a \<Rightarrow> ('a \<Rightarrow> py_error + 'b) \<Rightarrow> py_error + 'b" where
  "py_bind m f = (case m of Inl e \<Rightarrow> Inl e | Inr v \<Rightarrow> f v)"

subsection \<open>Decimal text of numbers\<close>

definition digit_char :: "nat \<Rightarrow> char" where
  "digit_char d = char_of (48 + d)"

definition is_digit :: "char \<Rightarrow> bool" where
  "is_digit c = (48 \<le> (of_char c :: nat) \<and> (of_char c :: nat) \<le> 57)"

definition digit_val :: "char \<Rightarrow> nat" where
  "digit_val c = of_char c - 48"

function show_nat :: "nat \<Rightarrow> string" where
  "show_nat n =
     (if n < 10 then [digit_char n] else show_nat (n div 10) @ [digit_char (n mod 10)])"
  by pat_completeness auto
termination
  by (relation "measure (\<lambda>n. n)") auto

declare show_nat.simps [simp del]

definition show_int :: "int \<Rightarrow> string" where
  "show_int i = (if i < 0 then ''-'' @ show_nat (nat (- i)) else show_nat (nat i))"

definition digits_val :: "string \<Rightarrow> nat" where
  "digits_val ds = fold (\<lambda>c acc. acc * 10 + digit_val c) ds 0"

text \<open>
  \<^verbatim>\<open>str(x)\<close>, which is what a replacement field of an f-string with no format spec
  renders. The text of a list or a dict (the repr of its elements, with Python's quoting
  of the strings inside) is the parameter \<open>container_repr\<close>.
\<close>

fun py_str :: "(pyval \<Rightarrow> string) \<Rightarrow> pyval \<Rightarrow> string" where
  "py_str container_repr PyNone = ''None''"
| "py_str container_repr (PyBool b) = (if b then ''True'' else ''False'')"
| "py_str container_repr (PyInt i) = show_int i"
| "py_str container_repr (PyFloat r) = r"
| "py_str container_repr (PyStr s) = s"
| "py_str container_repr (PyList xs) = container_repr (PyList xs)"
| "py_str container_repr (PyDict kvs) = container_repr (PyDict kvs)"

text \<open>The text of a nullable string column: \<^verbatim>\<open>None\<close> or the string.\<close>

definition column_str :: "string option \<Rightarrow> string" where
  "column_str c = (case c of None \<Rightarrow> ''None'' | Some s \<Rightarrow> s)"

section \<open>The synthetic distance\<close>

text \<open>
  \<^verbatim>\<open>f"{x:.1f}"\<close> rounds the exact value of the float \<open>x\<close> to one fractional digit, a tie
  going to the even digit. A float is a rational number, and the model takes the sample
  as one.
\<close>

definition round_half_even :: "rat \<Rightarrow> int" where
  "round_half_even y =
     (let f = \<lfloor>y\<rfloor>; d = y - of_int f
      in if d < 1 / 2 then f
         else if 1 / 2 < d then f + 1
         else if even f then f else f + 1)"

definition format_1f :: "rat \<Rightarrow> string" where
  "format_1f x =
     (let t = nat (round_half_even (\<bar>x\<bar> * 10))
      in (if x < 0 then ''-'' else '''') @ show_nat (t div 10) @ ''.'' @ show_nat (t mod 10))"

text \<open>
  \<^verbatim>\<open>calculate_distance_to_receiver(donor_address)\<close>; \<open>u\<close> is the value that
  \<^verbatim>\<open>random.uniform(0.5, 10.0)\<close> returns in this call.
\<close>

definition calculate_distance_to_receiver :: "rat \<Rightarrow> pyval \<Rightarrow> string" where
  "calculate_distance_to_receiver u donor_address = format_1f u @ '' mi''"

text \<open>The pattern \<^verbatim>\<open>^[0-9]+\.[0-9] mi$\<close>.\<close>

definition matches_distance_pattern :: "string \<Rightarrow> bool" where
  "matches_distance_pattern s =
     (takeWhile is_digit s \<noteq> [] \<and>
      (case dropWhile is_digit s of
         [p, d, sp, m, i] \<Rightarrow>
           p = CHR ''.'' \<and> is_digit d \<and> sp = CHR '' '' \<and> m = CHR ''m'' \<and> i = CHR ''i''
       | _ \<Rightarrow> False))"

text \<open>The number a distance string denotes: the decimal before the unit label.\<close>

definition distance_value :: "string \<Rightarrow> rat option" where
  "distance_value s =
     (if matches_distance_pattern s
      then (case dropWhile is_digit s of
              p # d # _ \<Rightarrow>
                Some (of_nat (digits_val (takeWhile is_digit s)) + of_nat (digit_val d) / 10)
            | _ \<Rightarrow> None)
      else None)"

section \<open>The table and the session\<close>

text \<open>
  An instance of the model class \<^verbatim>\<open>Donation\<close>. The attributes the constructor call of
  \<^verbatim>\<open>add_donation\<close> passes hold the Python values passed; \<open>id'\<close>, \<open>status\<close> and \<open>icon\<close> are
  not passed and stay \<^verbatim>\<open>None\<close> until the row is inserted. A row of the table is an
  instance as it is loaded: every column holds a str or \<^verbatim>\<open>None\<close>, the key an int.
\<close>

record donation =
  id' :: "int option"
  name :: pyval
  servings :: pyval
  readyTime :: pyval
  foodType :: pyval
  status :: "string option"
  icon :: "string option"
  donor :: pyval
  donorAddress :: pyval
  donor_phone :: pyval
  receiverAddress :: pyval
  receiverPhone :: pyval
  distance :: pyval

definition py_opt_str :: "string option \<Rightarrow> pyval" where
  "py_opt_str c = (case c of None \<Rightarrow> PyNone | Some s \<Rightarrow> PyStr s)"

definition py_opt_int :: "int option \<Rightarrow> pyval" where
  "py_opt_int c = (case c of None \<Rightarrow> PyNone | Some i \<Rightarrow> PyInt i)"

definition to_dict :: "donation \<Rightarrow> pyval" where
  "to_dict self = PyDict
     [(''id'', py_opt_int (id' self)),
      (''name'', name self),
      (''donor'', donor self),
      (''donor_phone'', donor_phone self),
      (''donorAddress'', donorAddress self),
      (''receiverAddress'', receiverAddress self),
      (''receiverPhone'', receiverPhone self),
      (''servings'', servings self),
      (''distance'', distance self),
      (''readyTime'', readyTime self),
      (''status'', py_opt_str (status self)),
      (''icon'', py_opt_str (icon self)),
      (''foodType'', foodType self)]"

text \<open>
  The session of one request: the committed rows of the table \<^verbatim>\<open>donations\<close> and the
  changes the request has made and not yet committed.
\<close>

datatype change = Insert donation | SetStatus int string

record session =
  rows :: "donation list"
  pending :: "change list"

text \<open>
  The driver takes an integer parameter only within 64 bits, signed; a larger one raises
  \<^verbatim>\<open>OverflowError\<close>.
\<close>

definition int64 :: "int \<Rightarrow> bool" where
  "int64 i = (- (2 ^ 63) \<le> i \<and> i < 2 ^ 63)"

text \<open>
  \<^verbatim>\<open>Donation.query.get(k)\<close>: the row whose primary key is \<open>k\<close>, or \<^verbatim>\<open>None\<close>; the key is
  a parameter of the query.
\<close>

definition query_get :: "session \<Rightarrow> int \<Rightarrow> py_error + donation option" where
  "query_get s k =
     (if int64 k then Inr (find (\<lambda>d. id' d = Some k) (rows s)) else Inl OverflowError)"

text \<open>The key an integer primary key column takes: one more than the largest in use.\<close>

definition next_id :: "donation list \<Rightarrow> int" where
  "next_id rs = (case List.map_filter id' rs of [] \<Rightarrow> 1 | i # js \<Rightarrow> fold max js i + 1)"

text \<open>The column defaults of the class, the gift glyph U+1F381 in UTF-8.\<close>

definition default_status :: string where
  "default_status = ''pending''"

definition default_icon :: string where
  "default_icon = [CHR 0xF0, CHR 0x9F, CHR 0x8E, CHR 0x81]"

definition with_defaults :: "int \<Rightarrow> donation \<Rightarrow> donation" where
  "with_defaults k d = d
     \<lparr>id' := (case id' d of None \<Rightarrow> Some k | Some i \<Rightarrow> Some i),
      status := (case status d of None \<Rightarrow> Some default_status | Some s \<Rightarrow> Some s),
      icon := (case icon d of None \<Rightarrow> Some default_icon | Some s \<Rightarrow> Some s)\<rparr>"

text \<open>
  What a \<^verbatim>\<open>String\<close> column holds of a value bound to it. The columns have text affinity:
  a str is stored as it is, \<^verbatim>\<open>None\<close> as NULL, an int (a bool is the int 1 or 0) as its
  decimal text, a float as the text \<open>real_text\<close> gives for it (the storage engine's own
  rendering, NULL for a NaN), a parameter. The driver refuses a list or a dict, and an
  int outside 64 bits.
\<close>

fun column_text :: "(string \<Rightarrow> string option) \<Rightarrow> pyval \<Rightarrow> py_error + pyval" where
  "column_text real_text PyNone = Inr PyNone"
| "column_text real_text (PyBool b) = Inr (PyStr (if b then ''1'' else ''0''))"
| "column_text real_text (PyInt i) =
     (if int64 i then Inr (PyStr (show_int i)) else Inl OverflowError)"
| "column_text real_text (PyFloat r) = Inr (py_opt_str (real_text r))"
| "column_text real_text (PyStr s) = Inr (PyStr s)"
| "column_text real_text (PyList xs) = Inl InterfaceError"
| "column_text real_text (PyDict kvs) = Inl InterfaceError"

text \<open>The row an instance is stored as: its columns bound in the order of the table.\<close>

definition bind_row :: "(string \<Rightarrow> string option) \<Rightarrow> donation \<Rightarrow> py_error + donation" where
  "bind_row real_text d =
     py_bind (column_text real_text (name d)) (\<lambda>c_name.
     py_bind (column_text real_text (servings d)) (\<lambda>c_servings.
     py_bind (column_text real_text (readyTime d)) (\<lambda>c_readyTime.
     py_bind (column_text real_text (foodType d)) (\<lambda>c_foodType.
     py_bind (column_text real_text (donor d)) (\<lambda>c_donor.
     py_bind (column_text real_text (donorAddress d)) (\<lambda>c_donorAddress.
     py_bind (column_text real_text (donor_phone d)) (\<lambda>c_donor_phone.
     py_bind (column_text real_text (receiverAddress d)) (\<lambda>c_receiverAddress.
     py_bind (column_text real_text (receiverPhone d)) (\<lambda>c_receiverPhone.
     py_bind (column_text real_text (distance d)) (\<lambda>c_distance.
     Inr (d\<lparr>name := c_name,
             servings := c_servings,
             readyTime := c_readyTime,
             foodType := c_foodType,
             donor := c_donor,
             donorAddress := c_donorAddress,
             donor_phone := c_donor_phone,
             receiverAddress := c_receiverAddress,
             receiverPhone := c_receiverPhone,
             distance := c_distance\<rparr>)))))))))))"

text \<open>
  One pending change reaching the table. An insert binds the columns, is refused when
  \<open>name\<close>, declared \<^verbatim>\<open>nullable=False\<close>, would be NULL, and else appends the row with its
  key and the column defaults. An update sets the status of the row with the key.
\<close>

fun flush_change ::
  "(string \<Rightarrow> string option) \<Rightarrow> change \<Rightarrow> donation list \<Rightarrow> py_error + donation list" where
  "flush_change real_text (Insert d) rs =
     py_bind (bind_row real_text d) (\<lambda>r.
       if name r = PyNone then Inl IntegrityError
       else Inr (rs @ [with_defaults (next_id rs) r]))"
| "flush_change real_text (SetStatus k st) rs =
     Inr (map (\<lambda>d. if id' d = Some k then d\<lparr>status := Some st\<rparr> else d) rs)"

fun flush ::
  "(string \<Rightarrow> string option) \<Rightarrow> change list \<Rightarrow> donation list \<Rightarrow> py_error + donation list" where
  "flush real_text [] rs = Inr rs"
| "flush real_text (c # cs) rs = py_bind (flush_change real_text c rs) (flush real_text cs)"

definition session_add :: "donation \<Rightarrow> session \<Rightarrow> session" where
  "session_add d s = s\<lparr>pending := pending s @ [Insert d]\<rparr>"

text \<open>
  \<^verbatim>\<open>db.session.commit()\<close>: all pending changes reach the table, or it raises and none
  does. \<open>fault\<close> says that the storage engine fails this commit.
\<close>

definition session_commit ::
  "(string \<Rightarrow> string option) \<Rightarrow> bool \<Rightarrow> session \<Rightarrow> py_error + session" where
  "session_commit real_text fault s =
     (if fault then Inl OperationalError
      else case flush real_text (pending s) (rows s) of
             Inl e \<Rightarrow> Inl e
           | Inr rs \<Rightarrow> Inr \<lparr>rows = rs, pending = []\<rparr>)"

definition session_rollback :: "session \<Rightarrow> session" where
  "session_rollback s = s\<lparr>pending := []\<rparr>"

section \<open>The endpoints\<close>

record response =
  body :: pyval
  code :: nat

definition get_donations :: "session \<Rightarrow> response" where
  "get_donations s = \<lparr>body = PyList (map to_dict (rows s)), code = 200\<rparr>"

text \<open>The constructor call of \<^verbatim>\<open>add_donation\<close>, its arguments evaluated in order.\<close>

definition new_donation :: "(pyval \<Rightarrow> string) \<Rightarrow> string \<Rightarrow> pyval \<Rightarrow> py_error + donation" where
  "new_donation container_repr calculated_distance new_donation_data =
     py_bind (py_get new_donation_data ''donorname'' (PyStr ''Web Form User'')) (\<lambda>v_donor.
     py_bind (py_get new_donation_data ''itemname'' (PyStr ''New Food Donation'')) (\<lambda>v_name.
     py_bind (py_get new_donation_data ''donorPhone'' PyNone) (\<lambda>v_donor_phone.
     py_bind (py_get new_donation_data ''donorAddress'' PyNone) (\<lambda>v_donorAddress.
     py_bind (py_get new_donation_data ''receiverAddress'' PyNone) (\<lambda>v_receiverAddress.
     py_bind (py_get new_donation_data ''receiverPhone'' PyNone) (\<lambda>v_receiverPhone.
     py_bind (py_get new_donation_data ''foodType'' PyNone) (\<lambda>v_foodType.
     py_bind (py_get new_donation_data ''quantity'' (PyInt 0)) (\<lambda>v_quantity.
     py_bind (py_get new_donation_data ''pickupTime'' (PyStr ''ASAP'')) (\<lambda>v_readyTime.
     Inr \<lparr>id' = None,
          name = v_name,
          servings = PyStr (py_str container_repr v_quantity @ '' Servings''),
          readyTime = v_readyTime,
          foodType = v_foodType,
          status = None,
          icon = None,
          donor = v_donor,
          donorAddress = v_donorAddress,
          donor_phone = v_donor_phone,
          receiverAddress = v_receiverAddress,
          receiverPhone = v_receiverPhone,
          distance = PyStr calculated_distance\<rparr>)))))))))"

text \<open>
  \<^verbatim>\<open>add_donation\<close>, with \<open>new_donation_data\<close> the value of \<^verbatim>\<open>request.json\<close>, \<open>u\<close> the
  sample the distance helper draws and \<open>fault\<close> the storage fault of the commit. An
  exception that leaves the function is \<open>Inl\<close>. The commit expires the instance, so
  \<^verbatim>\<open>new_donation.to_dict()\<close> reads the row the commit appended, the last of the table.
\<close>

definition add_donation ::
  "(pyval \<Rightarrow> string) \<Rightarrow> (string \<Rightarrow> string option) \<Rightarrow> rat \<Rightarrow> bool \<Rightarrow> session \<Rightarrow> pyval \<Rightarrow>
     session \<times> (py_error + response)" where
  "add_donation container_repr real_text u fault s new_donation_data =
     (if \<not> truthy new_donation_data
      then (s, Inr \<lparr>body = PyDict [(''error'', PyStr ''Missing required data'')], code = 400\<rparr>)
      else case py_contains ''quantity'' new_donation_data of
        Inl e \<Rightarrow> (s, Inl e)
      | Inr False \<Rightarrow>
          (s, Inr \<lparr>body = PyDict [(''error'', PyStr ''Missing required data'')], code = 400\<rparr>)
      | Inr True \<Rightarrow>
          (case py_get new_donation_data ''donorAddress'' (PyStr []) of
             Inl e \<Rightarrow> (s, Inl e)
           | Inr donor_address \<Rightarrow>
               (let calculated_distance = calculate_distance_to_receiver u donor_address
                in case new_donation container_repr calculated_distance new_donation_data of
                     Inl e \<Rightarrow> (s, Inl e)
                   | Inr d \<Rightarrow>
                       (let s1 = session_add d s
                        in case session_commit real_text fault s1 of
                             Inr s2 \<Rightarrow>
                               (s2, Inr \<lparr>body = PyDict
                                           [(''message'', PyStr ''Donation successfully recorded''),
                                            (''data'', to_dict (last (rows s2)))],
                                         code = 201\<rparr>)
                           | Inl e \<Rightarrow>
                               (session_rollback s1,
                                Inr \<lparr>body = PyDict
                                       [(''error'', PyStr ''Failed to save donation to database'')],
                                     code = 500\<rparr>)))))"

text \<open>
  \<^verbatim>\<open>claim_donation\<close>; the route's \<^verbatim>\<open>int\<close> converter passes a natural number. The
  function is the lookup of its first line followed by \<open>claim_finish\<close>, the rest of its
  body, which works on the instance the lookup returned.
\<close>

definition claim_finish ::
  "(string \<Rightarrow> string option) \<Rightarrow> bool \<Rightarrow> session \<Rightarrow> nat \<Rightarrow> donation option \<Rightarrow>
     session \<times> (py_error + response)" where
  "claim_finish real_text fault s donation_id donation =
     (case donation of
        None \<Rightarrow>
          (s, Inr \<lparr>body = PyDict [(''error'', PyStr ''Donation not found'')], code = 404\<rparr>)
      | Some d \<Rightarrow>
          if status d = Some ''pending''
          then (let s1 = s\<lparr>pending := pending s @ [SetStatus (int donation_id) ''claimed'']\<rparr>
                in case session_commit real_text fault s1 of
                     Inr s2 \<Rightarrow>
                       (s2, Inr \<lparr>body = PyDict
                                   [(''message'', PyStr (''Donation '' @ show_nat donation_id
                                       @ '' claimed successfully''))],
                                 code = 200\<rparr>)
                   | Inl e \<Rightarrow>
                       (session_rollback s1,
                        Inr \<lparr>body = PyDict
                               [(''error'', PyStr ''Failed to update donation status'')],
                             code = 500\<rparr>))
          else (s, Inr \<lparr>body = PyDict
                          [(''message'', PyStr (''Donation '' @ show_nat donation_id
                              @ '' is already '' @ column_str (status d)))],
                        code = 400\<rparr>))"

definition claim_donation ::
  "(string \<Rightarrow> string option) \<Rightarrow> bool \<Rightarrow> session \<Rightarrow> nat \<Rightarrow> session \<times> (py_error + response)" where
  "claim_donation real_text fault s donation_id =
     (case query_get s (int donation_id) of
        Inl e \<Rightarrow> (s, Inl e)
      | Inr donation \<Rightarrow> claim_finish real_text fault s donation_id donation)"

text \<open>
  Requests that overlap. Every request has a session of its own on the one table. In
  \<open>overlapping_claims\<close>, \<open>n\<close> claims of the same key have all done their lookup on the
  table of \<open>s\<close> before the first of them goes on; then each runs the rest of its body,
  one after the other, on the table the one before left, with the instance it had
  loaded, and with no storage fault.
\<close>

fun finish_all ::
  "(string \<Rightarrow> string option) \<Rightarrow> session \<Rightarrow> nat \<Rightarrow> donation option list \<Rightarrow>
     session \<times> (py_error + response) list" where
  "finish_all real_text s donation_id [] = (s, [])"
| "finish_all real_text s donation_id (donation # loaded) =
     (case claim_finish real_text False s donation_id donation of
        (s1, r) \<Rightarrow>
          (case finish_all real_text s1 donation_id loaded of
             (s2, rs) \<Rightarrow> (s2, r # rs)))"

definition overlapping_claims ::
  "(string \<Rightarrow> string option) \<Rightarrow> nat \<Rightarrow> session \<Rightarrow> nat \<Rightarrow> session \<times> (py_error + response) list" where
  "overlapping_claims real_text n s donation_id =
     (case query_get s (int donation_id) of
        Inl e \<Rightarrow> (s, replicate n (Inl e))
      | Inr donation \<Rightarrow> finish_all real_text s donation_id (replicate n donation))"

text \<open>The three routes, and the states they reach from the empty table.\<close>

datatype request = GetDonations | AddDonation pyval | ClaimDonation nat

definition handle ::
  "(pyval \<Rightarrow> string) \<Rightarrow> (string \<Rightarrow> string option) \<Rightarrow> rat \<Rightarrow> bool \<Rightarrow> request \<Rightarrow> session \<Rightarrow>
     session \<times> (py_error + response)" where
  "handle container_repr real_text u fault req s =
     (case req of
        GetDonations \<Rightarrow> (s, Inr (get_donations s))
      | AddDonation new_donation_data \<Rightarrow>
          add_donation container_repr real_text u fault s new_donation_data
      | ClaimDonation donation_id \<Rightarrow> claim_donation real_text fault s donation_id)"

inductive reachable :: "session \<Rightarrow> bool" where
  start: "reachable \<lparr>rows = [], pending = []\<rparr>"
| step: "reachable s \<Longrightarrow> reachable (fst (handle container_repr real_text u fault req s))"

section \<open>Invariant and sample data\<close>

text \<open>
  What holds of the session between two requests: nothing is pending, the primary keys
  are set and distinct, and every status is one of the two the endpoints write.
\<close>

definition session_inv :: "session \<Rightarrow> bool" where
  "session_inv s =
     (pending s = [] \<and> distinct (map id' (rows s)) \<and>
      (\<forall>d\<in>set (rows s). id' d \<noteq> None \<and>
         (status d = Some ''pending'' \<or> status d = Some ''claimed'')))"

text \<open>
  When the values a dict payload gives the columns can be stored: the driver takes each
  of them, and \<open>name\<close> does not end up NULL.
\<close>

definition binds :: "(string \<Rightarrow> string option) \<Rightarrow> pyval \<Rightarrow> bool" where
  "binds real_text v = (case column_text real_text v of Inl e \<Rightarrow> False | Inr c \<Rightarrow> True)"

definition payload_storable :: "(string \<Rightarrow> string option) \<Rightarrow> (string \<times> pyval) list \<Rightarrow> bool" where
  "payload_storable real_text kvs =
     (binds real_text (dict_get kvs ''itemname'' (PyStr ''New Food Donation'')) \<and>
      binds real_text (dict_get kvs ''pickupTime'' (PyStr ''ASAP'')) \<and>
      binds real_text (dict_get kvs ''foodType'' PyNone) \<and>
      binds real_text (dict_get kvs ''donorname'' (PyStr ''Web Form User'')) \<and>
      binds real_text (dict_get kvs ''donorAddress'' PyNone) \<and>
      binds real_text (dict_get kvs ''donorPhone'' PyNone) \<and>
      binds real_text (dict_get kvs ''receiverAddress'' PyNone) \<and>
      binds real_text (dict_get kvs ''receiverPhone'' PyNone) \<and>
      column_text real_text (dict_get kvs ''itemname'' (PyStr ''New Food Donation'')) \<noteq> Inr PyNone)"

text \<open>A sample run: one donation created in the empty table.\<close>

definition example_repr :: "pyval \<Rightarrow> string" where
  "example_repr v = ''[...]''"

definition example_real_text :: "string \<Rightarrow> string option" where
  "example_real_text r = Some r"

definition example_payload :: pyval where
  "example_payload = PyDict [(''quantity'', PyInt 20), (''donorAddress'', PyStr ''12 Main St'')]"

definition example_session :: session where
  "example_session =
     fst (add_donation example_repr example_real_text (3 / 4) False
            \<lparr>rows = [], pending = []\<rparr> example_payload)"

section \<open>Properties of the distance string\<close>

lemma is_digit_digit_char: "d < 10 \<Longrightarrow> is_digit (digit_char d)"
  by (simp add: is_digit_def digit_char_def)

lemma digit_val_digit_char: "d < 10 \<Longrightarrow> digit_val (digit_char d) = d"
  by (simp add: digit_val_def digit_char_def)

lemma show_nat_small: "n < 10 \<Longrightarrow> show_nat n = [digit_char n]"
  by (simp add: show_nat.simps)

lemma show_nat_not_Nil: "show_nat n \<noteq> []"
  by (subst show_nat.simps) simp

lemma show_nat_all_digits: "c \<in> set (show_nat n) \<Longrightarrow> is_digit c"
proof (induction n arbitrary: c rule: show_nat.induct)
  case (1 n)
  show ?case
  proof (cases "n < 10")
    case True
    with "1.prems" show ?thesis
      by (simp add: show_nat_small is_digit_digit_char)
  next
    case False
    from "1.prems" False
    have "c \<in> set (show_nat (n div 10)) \<or> c = digit_char (n mod 10)"
      by (subst (asm) show_nat.simps) auto
    then show ?thesis
      using "1.IH" [OF False] by (auto simp: is_digit_digit_char)
  qed
qed

lemma digits_val_snoc: "digits_val (ds @ [c]) = digits_val ds * 10 + digit_val c"
  by (simp add: digits_val_def)

lemma digits_val_show_nat: "digits_val (show_nat n) = n"
proof (induction n rule: show_nat.induct)
  case (1 n)
  show ?case
  proof (cases "n < 10")
    case True
    then show ?thesis
      by (simp add: show_nat_small digits_val_def digit_val_digit_char)
  next
    case False
    have "show_nat n = show_nat (n div 10) @ [digit_char (n mod 10)]"
      using False by (subst show_nat.simps) simp
    then show ?thesis
      using "1.IH" [OF False] by (simp add: digits_val_snoc digit_val_digit_char)
  qed
qed

lemma round_half_even_lower: "of_int k \<le> y \<Longrightarrow> k \<le> round_half_even y"
proof -
  assume "of_int k \<le> y"
  then have "k \<le> \<lfloor>y\<rfloor>" by (simp add: le_floor_iff)
  then show ?thesis by (simp add: round_half_even_def Let_def)
qed

lemma round_half_even_upper: "y \<le> of_int k \<Longrightarrow> round_half_even y \<le> k"
proof (cases "y = of_int k")
  case True
  then show ?thesis by (simp add: round_half_even_def Let_def)
next
  case False
  assume "y \<le> of_int k"
  with False have "y < of_int k" by simp
  then have "\<lfloor>y\<rfloor> < k" by (simp add: floor_less_iff)
  then show ?thesis by (simp add: round_half_even_def Let_def)
qed

lemma round_half_even_below_tie:
  assumes "y < of_int k + 1 / 2"
  shows "round_half_even y \<le> k"
proof -
  have fl: "of_int \<lfloor>y\<rfloor> \<le> y" by simp
  show ?thesis
  proof (cases "\<lfloor>y\<rfloor> < k")
    case True
    then show ?thesis by (simp add: round_half_even_def Let_def)
  next
    case False
    then have "k \<le> \<lfloor>y\<rfloor>" by simp
    then have "(of_int k :: rat) \<le> of_int \<lfloor>y\<rfloor>" by simp
    with assms have "y - of_int \<lfloor>y\<rfloor> < 1 / 2" by linarith
    moreover have "\<lfloor>y\<rfloor> \<le> k"
    proof -
      from assms have "y < of_int (k + 1)" by simp
      then have "\<lfloor>y\<rfloor> < k + 1" by (simp only: floor_less_iff)
      then show ?thesis by simp
    qed
    ultimately show ?thesis by (simp add: round_half_even_def Let_def)
  qed
qed

lemma not_digit_dot: "\<not> is_digit CHR ''.''"
  by (simp add: is_digit_def)

lemma format_1f_shape:
  assumes "0 \<le> x"
  shows "\<exists>ds d. format_1f x = ds @ CHR ''.'' # [digit_char d] \<and> ds \<noteq> [] \<and> (\<forall>c\<in>set ds. is_digit c) \<and> d < 10
     \<and> int (digits_val ds * 10 + d) = round_half_even (x * 10)"
proof -
  define t where "t = nat (round_half_even (x * 10))"
  have "0 \<le> round_half_even (x * 10)"
    using assms round_half_even_lower [of 0 "x * 10"] by simp
  then have t: "int t = round_half_even (x * 10)"
    by (simp add: t_def)
  have "format_1f x = show_nat (t div 10) @ CHR ''.'' # [digit_char (t mod 10)]"
    using assms by (simp add: format_1f_def t_def Let_def show_nat_small)
  moreover have "digits_val (show_nat (t div 10)) * 10 + t mod 10 = t"
    by (simp add: digits_val_show_nat)
  ultimately show ?thesis
    using t show_nat_not_Nil show_nat_all_digits by (metis mod_less_divisor zero_less_numeral)
qed


lemma takeWhile_digits_dot:
  "\<forall>c\<in>set ds. is_digit c \<Longrightarrow> takeWhile is_digit (ds @ CHR ''.'' # r) = ds"
  by (simp add: takeWhile_append2 not_digit_dot)

lemma dropWhile_digits_dot:
  "\<forall>c\<in>set ds. is_digit c \<Longrightarrow> dropWhile is_digit (ds @ CHR ''.'' # r) = CHR ''.'' # r"
  by (simp add: dropWhile_append2 not_digit_dot)

lemma distance_shape:
  assumes "0 \<le> u"
  shows "matches_distance_pattern (calculate_distance_to_receiver u a) \<and>
    distance_value (calculate_distance_to_receiver u a) = Some (of_int (round_half_even (u * 10)) / 10)"
proof -
  from format_1f_shape [OF assms] obtain ds d where
    f: "format_1f u = ds @ CHR ''.'' # [digit_char d]" and ne: "ds \<noteq> []"
    and dig: "\<forall>c\<in>set ds. is_digit c" and d: "d < 10"
    and v: "int (digits_val ds * 10 + d) = round_half_even (u * 10)"
    by blast
  have s: "calculate_distance_to_receiver u a = ds @ CHR ''.'' # (digit_char d # '' mi'')"
    by (simp add: calculate_distance_to_receiver_def f)
  have m: "matches_distance_pattern (calculate_distance_to_receiver u a)"
    unfolding s matches_distance_pattern_def
    by (simp only: takeWhile_digits_dot [OF dig] dropWhile_digits_dot [OF dig])
       (simp add: ne is_digit_digit_char [OF d])
  have "(of_int (round_half_even (u * 10)) :: rat) = of_nat (digits_val ds * 10 + d)"
    using v by (metis of_int_of_nat_eq)
  then have "(of_int (round_half_even (u * 10)) :: rat) / 10 = of_nat (digits_val ds) + of_nat d / 10"
    by simp
  moreover have "distance_value (calculate_distance_to_receiver u a)
      = Some (of_nat (digits_val ds) + of_nat (digit_val (digit_char d)) / 10)"
    using m unfolding distance_value_def
    by (simp only: s takeWhile_digits_dot [OF dig] dropWhile_digits_dot [OF dig]) simp
  ultimately show ?thesis
    using m by (simp add: digit_val_digit_char [OF d])
qed

lemma round_half_even_above_tie:
  assumes "odd k" and "of_int k + 1 / 2 \<le> y"
  shows "k + 1 \<le> round_half_even y"
proof (cases "k + 1 \<le> \<lfloor>y\<rfloor>")
  case True
  then show ?thesis by (simp add: round_half_even_def Let_def)
next
  case False
  from assms(2) have "of_int k \<le> y" by linarith
  then have "k \<le> \<lfloor>y\<rfloor>" by (simp add: le_floor_iff)
  with False have fl: "\<lfloor>y\<rfloor> = k" by simp
  have "\<not> y - of_int k < 1 / 2" using assms(2) by linarith
  then show ?thesis
    using assms(1) by (simp add: round_half_even_def Let_def fl)
qed

text \<open>
  C7, amended. For every sample \<open>u\<close> the sampler can return (\<open>1/2 \<le> u \<le> 10\<close>, the upper
  end included or not), the distance string matches the pattern
  \<^verbatim>\<open>^[0-9]+\.[0-9] mi$\<close>, and the number it denotes lies in the closed interval from
  \<open>0.5\<close> to \<open>10.0\<close>; it is \<open>10.0\<close> exactly for the samples from \<open>9.95\<close> on.
\<close>

theorem distance_pattern_and_range:
  assumes "1 / 2 \<le> u" and "u \<le> 10"
  shows "matches_distance_pattern (calculate_distance_to_receiver u donor_address) \<and>
     (\<exists>v. distance_value (calculate_distance_to_receiver u donor_address) = Some v \<and>
          1 / 2 \<le> v \<and> v \<le> 10 \<and> (v = 10 \<longleftrightarrow> 199 / 20 \<le> u))"
proof -
  let ?t = "round_half_even (u * 10)"
  let ?v = "(of_int ?t :: rat) / 10"
  have u0: "0 \<le> u" using assms by simp
  have lo: "5 \<le> ?t"
    using assms round_half_even_lower [of 5 "u * 10"] by simp
  have hi: "?t \<le> 100"
    using assms round_half_even_upper [of "u * 10" 100] by simp
  have below: "?t \<le> 99" if "u < 199 / 20"
    using that round_half_even_below_tie [of "u * 10" 99] by simp
  have above: "100 \<le> ?t" if "199 / 20 \<le> u"
    using that round_half_even_above_tie [of 99 "u * 10"] by simp
  have "(of_int 5 :: rat) \<le> of_int ?t" using lo by (simp only: of_int_le_iff)
  then have v_lo: "1 / 2 \<le> ?v" by simp
  have "(of_int ?t :: rat) \<le> of_int 100" using hi by (simp only: of_int_le_iff)
  then have v_hi: "?v \<le> 10" by simp
  have v_top: "?v = 10 \<longleftrightarrow> 199 / 20 \<le> u"
  proof
    assume "?v = 10"
    then have "(of_int ?t :: rat) = of_int 100" by simp
    then have "?t = 100" by (simp only: of_int_eq_iff)
    with below show "199 / 20 \<le> u" by fastforce
  next
    assume "199 / 20 \<le> u"
    with above hi have "?t = 100" by simp
    then show "?v = 10" by simp
  qed
  have m: "matches_distance_pattern (calculate_distance_to_receiver u donor_address)"
    and dv: "distance_value (calculate_distance_to_receiver u donor_address) = Some ?v"
    using distance_shape [OF u0, of donor_address] by blast+
  from v_lo v_hi v_top have "1 / 2 \<le> ?v \<and> ?v \<le> 10 \<and> (?v = 10 \<longleftrightarrow> 199 / 20 \<le> u)"
    by blast
  with dv have "\<exists>v. distance_value (calculate_distance_to_receiver u donor_address) = Some v \<and>
          1 / 2 \<le> v \<and> v \<le> 10 \<and> (v = 10 \<longleftrightarrow> 199 / 20 \<le> u)"
    by blast
  with m show ?thesis by blast
qed

theorem distance_pattern_and_range_witness: "(1 / 2 \<le> (3 / 4 :: rat) \<and> (3 / 4 :: rat) \<le> 10) \<and>
   calculate_distance_to_receiver (3 / 4) (PyStr ''12 Main St'') = ''0.8 mi'' \<and>
   matches_distance_pattern ''0.8 mi'' \<and> distance_value ''0.8 mi'' = Some (4 / 5)"
proof -
  have h1: "1 / 2 \<le> (3 / 4 :: rat)" by simp
  have h2: "(3 / 4 :: rat) \<le> 10" by simp
  have c: "calculate_distance_to_receiver (3 / 4) (PyStr ''12 Main St'') = ''0.8 mi''"
    by code_simp
  have v: "distance_value ''0.8 mi'' = Some (4 / 5)"
    by code_simp
  from distance_pattern_and_range [OF h1 h2, of "PyStr ''12 Main St''"] c v h1 h2 show ?thesis
    by simp
qed

text \<open>
  C7 as stated fails: the sample \<open>319/32 = 9.96875\<close> lies in the half-open interval
  from \<open>0.5\<close> to \<open>10.0\<close>, and its distance string is \<^verbatim>\<open>10.0 mi\<close>, which denotes
  \<open>10\<close>, outside that interval.
\<close>

theorem distance_below_ten_counterexample: "(1 / 2 \<le> (319 / 32 :: rat) \<and> (319 / 32 :: rat) < 10) \<and>
   calculate_distance_to_receiver (319 / 32) (PyStr []) = ''10.0 mi'' \<and>
   distance_value (calculate_distance_to_receiver (319 / 32) (PyStr [])) = Some 10 \<and>
   \<not> ((10 :: rat) < 10)"
  by code_simp

section \<open>Creating a donation\<close>

lemma new_donation_dict:
  "new_donation container_repr dst (PyDict kvs) = Inr
     \<lparr>id' = None,
      name = dict_get kvs ''itemname'' (PyStr ''New Food Donation''),
      servings = PyStr (py_str container_repr (dict_get kvs ''quantity'' (PyInt 0)) @ '' Servings''),
      readyTime = dict_get kvs ''pickupTime'' (PyStr ''ASAP''),
      foodType = dict_get kvs ''foodType'' PyNone,
      status = None,
      icon = None,
      donor = dict_get kvs ''donorname'' (PyStr ''Web Form User''),
      donorAddress = dict_get kvs ''donorAddress'' PyNone,
      donor_phone = dict_get kvs ''donorPhone'' PyNone,
      receiverAddress = dict_get kvs ''receiverAddress'' PyNone,
      receiverPhone = dict_get kvs ''receiverPhone'' PyNone,
      distance = PyStr dst\<rparr>"
  by (simp add: new_donation_def py_bind_def)

lemma rollback_fresh: "pending s = [] \<Longrightarrow> session_rollback (s\<lparr>pending := cs\<rparr>) = s"
  by (cases s) (simp add: session_rollback_def)

lemma py_bind_Inr: "(py_bind m f = Inr r) = (\<exists>v. m = Inr v \<and> f v = Inr r)"
  by (cases m) (simp_all add: py_bind_def)

lemma binds_iff: "binds real_text v = (\<exists>c. column_text real_text v = Inr c)"
  by (cases "column_text real_text v") (simp_all add: binds_def)

lemma binds_str: "binds real_text (PyStr t)"
  by (simp add: binds_def)

text \<open>What binding keeps, and what each stored column is.\<close>

lemma bind_row_Inr:
  assumes "bind_row real_text d = Inr r"
  shows "id' r = id' d" and "status r = status d" and "icon r = icon d"
    and "column_text real_text (name d) = Inr (name r)"
    and "column_text real_text (servings d) = Inr (servings r)"
    and "column_text real_text (readyTime d) = Inr (readyTime r)"
    and "column_text real_text (foodType d) = Inr (foodType r)"
    and "column_text real_text (donor d) = Inr (donor r)"
    and "column_text real_text (donorAddress d) = Inr (donorAddress r)"
    and "column_text real_text (donor_phone d) = Inr (donor_phone r)"
    and "column_text real_text (receiverAddress d) = Inr (receiverAddress r)"
    and "column_text real_text (receiverPhone d) = Inr (receiverPhone r)"
    and "column_text real_text (distance d) = Inr (distance r)"
proof -
  from assms obtain c1 c2 c3 c4 c5 c6 c7 c8 c9 c10 where
    c: "column_text real_text (name d) = Inr c1"
       "column_text real_text (servings d) = Inr c2"
       "column_text real_text (readyTime d) = Inr c3"
       "column_text real_text (foodType d) = Inr c4"
       "column_text real_text (donor d) = Inr c5"
       "column_text real_text (donorAddress d) = Inr c6"
       "column_text real_text (donor_phone d) = Inr c7"
       "column_text real_text (receiverAddress d) = Inr c8"
       "column_text real_text (receiverPhone d) = Inr c9"
       "column_text real_text (distance d) = Inr c10"
    and r': "d\<lparr>name := c1, servings := c2, readyTime := c3, foodType := c4, donor := c5,
              donorAddress := c6, donor_phone := c7, receiverAddress := c8,
              receiverPhone := c9, distance := c10\<rparr> = r"
    unfolding bind_row_def py_bind_Inr sum.inject by (elim exE conjE) (rule that; assumption)
  note r = r' [symmetric]
  show "id' r = id' d" and "status r = status d" and "icon r = icon d"
    by (simp_all add: r)
  show "column_text real_text (name d) = Inr (name r)"
    and "column_text real_text (servings d) = Inr (servings r)"
    and "column_text real_text (readyTime d) = Inr (readyTime r)"
    and "column_text real_text (foodType d) = Inr (foodType r)"
    and "column_text real_text (donor d) = Inr (donor r)"
    and "column_text real_text (donorAddress d) = Inr (donorAddress r)"
    and "column_text real_text (donor_phone d) = Inr (donor_phone r)"
    and "column_text real_text (receiverAddress d) = Inr (receiverAddress r)"
    and "column_text real_text (receiverPhone d) = Inr (receiverPhone r)"
    and "column_text real_text (distance d) = Inr (distance r)"
    by (simp_all add: r c)
qed

lemma bind_row_binds:
  "(\<exists>r. bind_row real_text d = Inr r) =
     (binds real_text (name d) \<and> binds real_text (servings d) \<and>
      binds real_text (readyTime d) \<and> binds real_text (foodType d) \<and>
      binds real_text (donor d) \<and> binds real_text (donorAddress d) \<and>
      binds real_text (donor_phone d) \<and> binds real_text (receiverAddress d) \<and>
      binds real_text (receiverPhone d) \<and> binds real_text (distance d))"
  unfolding bind_row_def py_bind_Inr binds_iff by blast


lemma commit_insert:
  "pending s = [] \<Longrightarrow> session_commit real_text fault (session_add d s) =
     (if fault then Inl OperationalError
      else case bind_row real_text d of
             Inl e \<Rightarrow> Inl e
           | Inr r \<Rightarrow>
               if name r = PyNone then Inl IntegrityError
               else Inr \<lparr>rows = rows s @ [with_defaults (next_id (rows s)) r], pending = []\<rparr>)"
  by (simp add: session_commit_def session_add_def py_bind_def split: sum.splits)

lemma commit_set_status:
  "pending s = [] \<Longrightarrow>
   session_commit real_text fault (s\<lparr>pending := pending s @ [SetStatus k st]\<rparr>) =
     (if fault then Inl OperationalError
      else Inr \<lparr>rows = map (\<lambda>d. if id' d = Some k then d\<lparr>status := Some st\<rparr> else d) (rows s),
                pending = []\<rparr>)"
  by (simp add: session_commit_def py_bind_def)

lemma dict_has_key: "(map_of kvs k \<noteq> None) = (k \<in> fst ` set kvs)"
  by (simp add: map_of_eq_None_iff)

lemma dict_get_Some: "map_of kvs k = Some v \<Longrightarrow> dict_get kvs k d = v"
  by (simp add: dict_get_def)

lemma dict_get_None: "map_of kvs k = None \<Longrightarrow> dict_get kvs k d = d"
  by (simp add: dict_get_def)

text \<open>
  The instance built from a dict payload can be stored exactly when the payload's values
  can.
\<close>

lemma new_donation_storable:
  assumes "new_donation container_repr dst (PyDict kvs) = Inr d"
  shows "(\<exists>r. bind_row real_text d = Inr r \<and> name r \<noteq> PyNone) = payload_storable real_text kvs"
proof -
  from assms have d: "name d = dict_get kvs ''itemname'' (PyStr ''New Food Donation'')"
    "readyTime d = dict_get kvs ''pickupTime'' (PyStr ''ASAP'')"
    "foodType d = dict_get kvs ''foodType'' PyNone"
    "donor d = dict_get kvs ''donorname'' (PyStr ''Web Form User'')"
    "donorAddress d = dict_get kvs ''donorAddress'' PyNone"
    "donor_phone d = dict_get kvs ''donorPhone'' PyNone"
    "receiverAddress d = dict_get kvs ''receiverAddress'' PyNone"
    "receiverPhone d = dict_get kvs ''receiverPhone'' PyNone"
    and t: "binds real_text (servings d)" "binds real_text (distance d)"
    by (auto simp: new_donation_dict binds_str)
  show ?thesis
  proof
    assume "\<exists>r. bind_row real_text d = Inr r \<and> name r \<noteq> PyNone"
    then obtain r where r: "bind_row real_text d = Inr r" and n: "name r \<noteq> PyNone"
      by blast
    from r have "\<exists>r. bind_row real_text d = Inr r" by blast
    then have b: "binds real_text (name d)" "binds real_text (readyTime d)"
      "binds real_text (foodType d)" "binds real_text (donor d)"
      "binds real_text (donorAddress d)" "binds real_text (donor_phone d)"
      "binds real_text (receiverAddress d)" "binds real_text (receiverPhone d)"
      unfolding bind_row_binds by blast+
    from bind_row_Inr(4) [OF r] n have "column_text real_text (name d) \<noteq> Inr PyNone"
      by simp
    with b show "payload_storable real_text kvs"
      unfolding payload_storable_def d by blast
  next
    assume "payload_storable real_text kvs"
    then have b: "binds real_text (name d)" "binds real_text (readyTime d)"
      "binds real_text (foodType d)" "binds real_text (donor d)"
      "binds real_text (donorAddress d)" "binds real_text (donor_phone d)"
      "binds real_text (receiverAddress d)" "binds real_text (receiverPhone d)"
      and n: "column_text real_text (name d) \<noteq> Inr PyNone"
      unfolding payload_storable_def d by blast+
    from b t have "\<exists>r. bind_row real_text d = Inr r"
      unfolding bind_row_binds by blast
    then obtain r where r: "bind_row real_text d = Inr r" by blast
    from bind_row_Inr(4) [OF r] n have "name r \<noteq> PyNone" by auto
    with r show "\<exists>r. bind_row real_text d = Inr r \<and> name r \<noteq> PyNone" by blast
  qed
qed

text \<open>
  What \<^verbatim>\<open>add_donation\<close> does with a dict payload that has the key: the 500 of a commit
  that raises, or the 201 with the stored row.
\<close>

lemma add_donation_dict:
  assumes q: "map_of kvs ''quantity'' = Some q" and fresh: "pending s = []"
  shows "\<exists>d. new_donation container_repr
              (calculate_distance_to_receiver u (dict_get kvs ''donorAddress'' (PyStr [])))
              (PyDict kvs) = Inr d \<and>
          (if fault \<or> \<not> payload_storable real_text kvs
           then add_donation container_repr real_text u fault s (PyDict kvs) =
             (s, Inr \<lparr>body = PyDict [(''error'', PyStr ''Failed to save donation to database'')],
                      code = 500\<rparr>)
           else \<exists>r. bind_row real_text d = Inr r \<and> name r \<noteq> PyNone \<and>
             add_donation container_repr real_text u fault s (PyDict kvs) =
               (\<lparr>rows = rows s @ [with_defaults (next_id (rows s)) r], pending = []\<rparr>,
                Inr \<lparr>body = PyDict
                       [(''message'', PyStr ''Donation successfully recorded''),
                        (''data'', to_dict (with_defaults (next_id (rows s)) r))],
                     code = 201\<rparr>))"
proof -
  let ?dst = "calculate_distance_to_receiver u (dict_get kvs ''donorAddress'' (PyStr []))"
  from q have ne: "kvs \<noteq> []" by auto
  obtain d where d: "new_donation container_repr ?dst (PyDict kvs) = Inr d"
    by (simp add: new_donation_dict)
  have rb: "session_rollback (session_add d s) = s"
    using fresh by (simp add: session_add_def rollback_fresh)
  have run: "add_donation container_repr real_text u fault s (PyDict kvs) =
      (case session_commit real_text fault (session_add d s) of
         Inr s2 \<Rightarrow>
           (s2, Inr \<lparr>body = PyDict [(''message'', PyStr ''Donation successfully recorded''),
                                   (''data'', to_dict (last (rows s2)))],
                    code = 201\<rparr>)
       | Inl e \<Rightarrow>
           (s, Inr \<lparr>body = PyDict [(''error'', PyStr ''Failed to save donation to database'')],
                    code = 500\<rparr>))"
    using d q ne by (simp add: add_donation_def Let_def rb split: sum.splits)
  note st = new_donation_storable [OF d, of real_text]
  show ?thesis
  proof (cases "fault \<or> \<not> payload_storable real_text kvs")
    case True
    then have "\<exists>e. session_commit real_text fault (session_add d s) = Inl e"
    proof
      assume fault
      then show ?thesis by (simp add: commit_insert [OF fresh])
    next
      assume "\<not> payload_storable real_text kvs"
      with st have "\<not> (\<exists>r. bind_row real_text d = Inr r \<and> name r \<noteq> PyNone)"
        by simp
      then show ?thesis
        by (cases "bind_row real_text d") (auto simp: commit_insert [OF fresh])
    qed
    then obtain e where "session_commit real_text fault (session_add d s) = Inl e"
      by blast
    with run True d show ?thesis by auto
  next
    case False
    with st obtain r where r: "bind_row real_text d = Inr r" and n: "name r \<noteq> PyNone"
      by blast
    from False r n have "session_commit real_text fault (session_add d s) =
        Inr \<lparr>rows = rows s @ [with_defaults (next_id (rows s)) r], pending = []\<rparr>"
      by (simp add: commit_insert [OF fresh])
    with run have "add_donation container_repr real_text u fault s (PyDict kvs) =
               (\<lparr>rows = rows s @ [with_defaults (next_id (rows s)) r], pending = []\<rparr>,
                Inr \<lparr>body = PyDict
                       [(''message'', PyStr ''Donation successfully recorded''),
                        (''data'', to_dict (with_defaults (next_id (rows s)) r))],
                     code = 201\<rparr>)"
      by simp
    with False d r n show ?thesis by auto
  qed
qed


text \<open>
  The validation of the payload: \<^verbatim>\<open>None\<close> and a dict without the key get the 400 and the
  session is unchanged; a dict with the key gets the 201 or the 500 of the commit.
\<close>

lemma add_donation_missing_quantity:
  "((new_donation_data = PyNone \<or>
     (\<exists>kvs. new_donation_data = PyDict kvs \<and> ''quantity'' \<notin> fst ` set kvs)) \<longrightarrow>
      add_donation container_repr real_text u fault s new_donation_data =
        (s, Inr \<lparr>body = PyDict [(''error'', PyStr ''Missing required data'')], code = 400\<rparr>)) \<and>
   ((\<exists>kvs. new_donation_data = PyDict kvs \<and> ''quantity'' \<in> fst ` set kvs) \<and> pending s = [] \<longrightarrow>
      (\<exists>r. snd (add_donation container_repr real_text u fault s new_donation_data) = Inr r \<and>
           (code r = 201 \<or> code r = 500)))"
proof (intro conjI impI)
  assume "new_donation_data = PyNone \<or>
     (\<exists>kvs. new_donation_data = PyDict kvs \<and> ''quantity'' \<notin> fst ` set kvs)"
  then show "add_donation container_repr real_text u fault s new_donation_data =
        (s, Inr \<lparr>body = PyDict [(''error'', PyStr ''Missing required data'')], code = 400\<rparr>)"
  proof
    assume "new_donation_data = PyNone"
    then show ?thesis by (simp add: add_donation_def)
  next
    assume "\<exists>kvs. new_donation_data = PyDict kvs \<and> ''quantity'' \<notin> fst ` set kvs"
    then obtain kvs where k: "new_donation_data = PyDict kvs" and "''quantity'' \<notin> fst ` set kvs"
      by blast
    then have "map_of kvs ''quantity'' = None"
      by (simp add: map_of_eq_None_iff)
    then show ?thesis by (simp add: add_donation_def k)
  qed
next
  assume a: "(\<exists>kvs. new_donation_data = PyDict kvs \<and> ''quantity'' \<in> fst ` set kvs) \<and> pending s = []"
  then obtain kvs where k: "new_donation_data = PyDict kvs" and "''quantity'' \<in> fst ` set kvs"
    by blast
  then obtain q where q: "map_of kvs ''quantity'' = Some q"
    using dict_has_key [of kvs "''quantity''"] by auto
  from a have fresh: "pending s = []" by simp
  from add_donation_dict [OF q fresh, of container_repr u fault real_text]
  show "\<exists>r. snd (add_donation container_repr real_text u fault s new_donation_data) = Inr r \<and>
           (code r = 201 \<or> code r = 500)"
    unfolding k by (auto split: if_splits)
qed

text \<open>
  What the handler does with a payload that is not a dict: a falsy one, and a str or a
  list without \<^verbatim>\<open>quantity\<close> in it, gets the 400; on any other the membership test or the
  first \<^verbatim>\<open>get\<close> raises.
\<close>

lemma add_donation_not_a_dict:
  assumes "\<And>kvs. new_donation_data \<noteq> PyDict kvs"
  shows "add_donation container_repr real_text u fault s new_donation_data =
     (s, if \<not> truthy new_donation_data
         then Inr \<lparr>body = PyDict [(''error'', PyStr ''Missing required data'')], code = 400\<rparr>
         else case py_contains ''quantity'' new_donation_data of
                Inl e \<Rightarrow> Inl e
              | Inr False \<Rightarrow>
                  Inr \<lparr>body = PyDict [(''error'', PyStr ''Missing required data'')], code = 400\<rparr>
              | Inr True \<Rightarrow> Inl AttributeError)"
proof (cases new_donation_data)
  case (PyDict kvs)
  with assms show ?thesis by blast
qed (simp_all add: add_donation_def split: bool.splits)

text \<open>
  C2, the code at the failing input. The payload \<^verbatim>\<open>5\<close> has no key \<^verbatim>\<open>quantity\<close>; it is
  truthy, so the membership test of the validation runs on an int and raises
  \<^verbatim>\<open>TypeError\<close>, which leaves the function: there is no 400 response. The payload \<^verbatim>\<open>0\<close>,
  as little a dict, is falsy and gets the 400 that the validation is there to give.
  Neither creates a row.
\<close>

theorem add_donation_scalar_payload_raises:
  "add_donation example_repr example_real_text (3 / 4) False \<lparr>rows = [], pending = []\<rparr> (PyInt 5) =
     (\<lparr>rows = [], pending = []\<rparr>, Inl TypeError) \<and>
   add_donation example_repr example_real_text (3 / 4) False \<lparr>rows = [], pending = []\<rparr> (PyInt 0) =
     (\<lparr>rows = [], pending = []\<rparr>,
      Inr \<lparr>body = PyDict [(''error'', PyStr ''Missing required data'')], code = 400\<rparr>)"
  by (simp add: add_donation_def)

lemma add_donation_commits:
  assumes "map_of kvs ''quantity'' = Some q" and "pending s = []"
    and "\<not> fault" and "payload_storable real_text kvs"
  shows "\<exists>d r. new_donation container_repr
              (calculate_distance_to_receiver u (dict_get kvs ''donorAddress'' (PyStr [])))
              (PyDict kvs) = Inr d \<and>
          bind_row real_text d = Inr r \<and>
          add_donation container_repr real_text u fault s (PyDict kvs) =
            (\<lparr>rows = rows s @ [with_defaults (next_id (rows s)) r], pending = []\<rparr>,
             Inr \<lparr>body = PyDict
                    [(''message'', PyStr ''Donation successfully recorded''),
                     (''data'', to_dict (with_defaults (next_id (rows s)) r))],
                  code = 201\<rparr>)"
proof -
  from assms(3,4) have c: "\<not> (fault \<or> \<not> payload_storable real_text kvs)"
    by simp
  from add_donation_dict [OF assms(1,2), of container_repr u fault real_text]
  show ?thesis
    unfolding if_not_P [OF c] by blast
qed

text \<open>
  C3. For a dict payload with the key \<^verbatim>\<open>quantity\<close> whose commit succeeds (no storage
  fault, values the columns can store), the row appended to the table, which is also the
  row of the 201 body, has in \<open>donor\<close>, \<open>name\<close> and \<open>readyTime\<close> the stored text of the
  payload's value, and of the defaults \<^verbatim>\<open>Web Form User\<close>, \<^verbatim>\<open>New Food Donation\<close> and
  \<^verbatim>\<open>ASAP\<close> when the key is absent; \<open>servings\<close> is the text of the quantity followed by
  \<^verbatim>\<open> Servings\<close> for a quantity of any type, and \<open>status\<close> is \<^verbatim>\<open>pending\<close>.
\<close>

theorem add_donation_defaults:
  assumes "map_of kvs ''quantity'' = Some q" and "pending s = []"
    and "\<not> fault" and "payload_storable real_text kvs"
  shows "\<exists>d. add_donation container_repr real_text u fault s (PyDict kvs) =
           (\<lparr>rows = rows s @ [d], pending = []\<rparr>,
            Inr \<lparr>body = PyDict [(''message'', PyStr ''Donation successfully recorded''),
                                (''data'', to_dict d)],
                 code = 201\<rparr>) \<and>
         column_text real_text (case map_of kvs ''donorname'' of
                                  None \<Rightarrow> PyStr ''Web Form User'' | Some v \<Rightarrow> v) = Inr (donor d) \<and>
         column_text real_text (case map_of kvs ''itemname'' of
                                  None \<Rightarrow> PyStr ''New Food Donation'' | Some v \<Rightarrow> v) = Inr (name d) \<and>
         column_text real_text (case map_of kvs ''pickupTime'' of
                                  None \<Rightarrow> PyStr ''ASAP'' | Some v \<Rightarrow> v) = Inr (readyTime d) \<and>
         (map_of kvs ''donorname'' = None \<longrightarrow> donor d = PyStr ''Web Form User'') \<and>
         (map_of kvs ''itemname'' = None \<longrightarrow> name d = PyStr ''New Food Donation'') \<and>
         (map_of kvs ''pickupTime'' = None \<longrightarrow> readyTime d = PyStr ''ASAP'') \<and>
         servings d = PyStr (py_str container_repr q @ '' Servings'') \<and>
         status d = Some ''pending''"
proof -
  let ?dst = "calculate_distance_to_receiver u (dict_get kvs ''donorAddress'' (PyStr []))"
  from add_donation_commits [OF assms, of container_repr u]
  obtain d0 r where d0: "new_donation container_repr ?dst (PyDict kvs) = Inr d0"
    and r: "bind_row real_text d0 = Inr r"
    and run: "add_donation container_repr real_text u fault s (PyDict kvs) =
      (\<lparr>rows = rows s @ [with_defaults (next_id (rows s)) r], pending = []\<rparr>,
       Inr \<lparr>body = PyDict [(''message'', PyStr ''Donation successfully recorded''),
                           (''data'', to_dict (with_defaults (next_id (rows s)) r))],
            code = 201\<rparr>)"
    by blast
  let ?d = "with_defaults (next_id (rows s)) r"
  from d0 have passed: "donor d0 = dict_get kvs ''donorname'' (PyStr ''Web Form User'')"
    "name d0 = dict_get kvs ''itemname'' (PyStr ''New Food Donation'')"
    "readyTime d0 = dict_get kvs ''pickupTime'' (PyStr ''ASAP'')"
    "servings d0 = PyStr (py_str container_repr q @ '' Servings'')"
    "status d0 = None"
    using assms(1) by (auto simp: new_donation_dict dict_get_Some)
  have kept: "donor ?d = donor r" "name ?d = name r" "readyTime ?d = readyTime r"
    "servings ?d = servings r"
    by (simp_all add: with_defaults_def)
  have filled: "status ?d = Some ''pending''"
    using passed(5) bind_row_Inr(2) [OF r] by (simp add: with_defaults_def default_status_def)
  have donor: "column_text real_text (dict_get kvs ''donorname'' (PyStr ''Web Form User'')) = Inr (donor ?d)"
    using bind_row_Inr(8) [OF r] by (simp add: kept passed)
  have name: "column_text real_text (dict_get kvs ''itemname'' (PyStr ''New Food Donation'')) = Inr (name ?d)"
    using bind_row_Inr(4) [OF r] by (simp add: kept passed)
  have ready: "column_text real_text (dict_get kvs ''pickupTime'' (PyStr ''ASAP'')) = Inr (readyTime ?d)"
    using bind_row_Inr(6) [OF r] by (simp add: kept passed)
  have serv: "servings ?d = PyStr (py_str container_repr q @ '' Servings'')"
    using bind_row_Inr(5) [OF r] by (simp add: kept passed)
  have d1: "map_of kvs ''donorname'' = None \<longrightarrow> donor ?d = PyStr ''Web Form User''"
  proof
    assume "map_of kvs ''donorname'' = None"
    with donor show "donor ?d = PyStr ''Web Form User''"
      by (simp add: dict_get_def)
  qed
  have d2: "map_of kvs ''itemname'' = None \<longrightarrow> name ?d = PyStr ''New Food Donation''"
  proof
    assume "map_of kvs ''itemname'' = None"
    with name show "name ?d = PyStr ''New Food Donation''"
      by (simp add: dict_get_def)
  qed
  have d3: "map_of kvs ''pickupTime'' = None \<longrightarrow> readyTime ?d = PyStr ''ASAP''"
  proof
    assume "map_of kvs ''pickupTime'' = None"
    with ready show "readyTime ?d = PyStr ''ASAP''"
      by (simp add: dict_get_def)
  qed
  note facts = run donor [unfolded dict_get_def] name [unfolded dict_get_def]
    ready [unfolded dict_get_def] d1 d2 d3 serv filled
  show ?thesis
    by (rule exI [of _ ?d]) (intro conjI; fact facts)
qed

text \<open>
  C9. The validation looks at the presence of the key only: a dict payload that binds
  \<^verbatim>\<open>quantity\<close> to \<^verbatim>\<open>None\<close> is answered 201 when the commit succeeds (no storage fault,
  values the columns can store), and the stored row has the servings \<^verbatim>\<open>None Servings\<close>.
\<close>

theorem add_donation_null_quantity:
  assumes "map_of kvs ''quantity'' = Some PyNone" and "pending s = []"
    and "\<not> fault" and "payload_storable real_text kvs"
  shows "\<exists>d r. add_donation container_repr real_text u fault s (PyDict kvs) =
             (\<lparr>rows = rows s @ [d], pending = []\<rparr>, Inr r) \<and>
           code r = 201 \<and> servings d = PyStr ''None Servings''"
proof -
  let ?dst = "calculate_distance_to_receiver u (dict_get kvs ''donorAddress'' (PyStr []))"
  from add_donation_commits [OF assms, of container_repr u]
  obtain d0 r where d0: "new_donation container_repr ?dst (PyDict kvs) = Inr d0"
    and r: "bind_row real_text d0 = Inr r"
    and run: "add_donation container_repr real_text u fault s (PyDict kvs) =
      (\<lparr>rows = rows s @ [with_defaults (next_id (rows s)) r], pending = []\<rparr>,
       Inr \<lparr>body = PyDict [(''message'', PyStr ''Donation successfully recorded''),
                           (''data'', to_dict (with_defaults (next_id (rows s)) r))],
            code = 201\<rparr>)"
    by blast
  from d0 have "servings d0 = PyStr (py_str container_repr PyNone @ '' Servings'')"
    using assms(1) by (auto simp: new_donation_dict dict_get_Some)
  with bind_row_Inr(5) [OF r] have "servings r = PyStr ''None Servings''"
    by simp
  then have "servings (with_defaults (next_id (rows s)) r) = PyStr ''None Servings''"
    by (simp add: with_defaults_def)
  with run show ?thesis by simp
qed

lemma add_donation_state:
  assumes "pending s = []"
  shows "fst (add_donation container_repr real_text u fault s new_donation_data) = s \<or>
     (\<exists>d. id' d = None \<and> status d = None \<and>
          distance d = PyStr (format_1f u @ '' mi'') \<and>
          fst (add_donation container_repr real_text u fault s new_donation_data) =
            \<lparr>rows = rows s @ [with_defaults (next_id (rows s)) d], pending = []\<rparr>)"
proof (cases new_donation_data)
  case (PyDict kvs)
  show ?thesis
  proof (cases "map_of kvs ''quantity''")
    case None
    then show ?thesis by (simp add: add_donation_def PyDict)
  next
    case (Some q)
    let ?dst = "calculate_distance_to_receiver u (dict_get kvs ''donorAddress'' (PyStr []))"
    from add_donation_dict [OF Some assms, of container_repr u fault real_text]
    obtain d where d: "new_donation container_repr ?dst (PyDict kvs) = Inr d"
      and r: "fst (add_donation container_repr real_text u fault s (PyDict kvs)) = s \<or>
          (\<exists>r. bind_row real_text d = Inr r \<and>
             fst (add_donation container_repr real_text u fault s (PyDict kvs)) =
               \<lparr>rows = rows s @ [with_defaults (next_id (rows s)) r], pending = []\<rparr>)"
      by (auto split: if_splits)
    from d have t: "id' d = None" "status d = None"
      "distance d = PyStr (format_1f u @ '' mi'')"
      by (auto simp: new_donation_dict calculate_distance_to_receiver_def)
    from r show ?thesis
    proof
      assume "fst (add_donation container_repr real_text u fault s (PyDict kvs)) = s"
      then show ?thesis unfolding PyDict by blast
    next
      assume "\<exists>r. bind_row real_text d = Inr r \<and>
             fst (add_donation container_repr real_text u fault s (PyDict kvs)) =
               \<lparr>rows = rows s @ [with_defaults (next_id (rows s)) r], pending = []\<rparr>"
      then obtain r where b: "bind_row real_text d = Inr r"
        and f: "fst (add_donation container_repr real_text u fault s (PyDict kvs)) =
               \<lparr>rows = rows s @ [with_defaults (next_id (rows s)) r], pending = []\<rparr>"
        by blast
      from bind_row_Inr(1,2,13) [OF b] t
      have "id' r = None" "status r = None" "distance r = PyStr (format_1f u @ '' mi'')"
        by simp_all
      with f show ?thesis unfolding PyDict by blast
    qed
  qed
qed (simp_all add: add_donation_def split: sum.splits bool.splits)

text \<open>
  C10. The distance helper ignores its argument: with the same sample it returns the
  same string for any two addresses, and any two rows that \<^verbatim>\<open>add_donation\<close> stores with
  the same sample carry the same distance, whatever the payloads, the tables and the
  commit faults were.
\<close>

theorem distance_ignores_payload:
  "calculate_distance_to_receiver u a1 = calculate_distance_to_receiver u a2 \<and>
   (pending s1 = [] \<and> pending s2 = [] \<and>
    fst (add_donation c1 t1 u f1 s1 data1) = \<lparr>rows = rows s1 @ [d1], pending = []\<rparr> \<and>
    fst (add_donation c2 t2 u f2 s2 data2) = \<lparr>rows = rows s2 @ [d2], pending = []\<rparr> \<longrightarrow>
    distance d1 = distance d2)"
proof (intro conjI impI)
  show "calculate_distance_to_receiver u a1 = calculate_distance_to_receiver u a2"
    by (simp add: calculate_distance_to_receiver_def)
next
  assume a: "pending s1 = [] \<and> pending s2 = [] \<and>
    fst (add_donation c1 t1 u f1 s1 data1) = \<lparr>rows = rows s1 @ [d1], pending = []\<rparr> \<and>
    fst (add_donation c2 t2 u f2 s2 data2) = \<lparr>rows = rows s2 @ [d2], pending = []\<rparr>"
  have stored: "distance d = PyStr (format_1f u @ '' mi'')"
    if "pending s = []"
      and "fst (add_donation c t u f s data) = \<lparr>rows = rows s @ [d], pending = []\<rparr>"
    for c t f s data d
  proof -
    from add_donation_state [OF that(1), of c t u f data]
    show ?thesis
    proof
      assume "fst (add_donation c t u f s data) = s"
      with that(2) have "rows s = rows s @ [d]"
        by (metis session.select_convs(1))
      then show ?thesis by simp
    next
      assume "\<exists>d'. id' d' = None \<and> status d' = None \<and>
          distance d' = PyStr (format_1f u @ '' mi'') \<and>
          fst (add_donation c t u f s data) =
            \<lparr>rows = rows s @ [with_defaults (next_id (rows s)) d'], pending = []\<rparr>"
      then obtain d' where dd: "distance d' = PyStr (format_1f u @ '' mi'')"
        and "fst (add_donation c t u f s data) =
            \<lparr>rows = rows s @ [with_defaults (next_id (rows s)) d'], pending = []\<rparr>"
        by blast
      with that(2) have "d = with_defaults (next_id (rows s)) d'"
        by simp
      then show ?thesis by (simp add: with_defaults_def dd)
    qed
  qed
  from a stored [of s1 c1 t1 f1 data1 d1] stored [of s2 c2 t2 f2 data2 d2]
  show "distance d1 = distance d2" by simp
qed

text \<open>
  A key within 64 bits that no row has: \<^verbatim>\<open>claim_donation\<close> answers 404 and returns the
  session as it was.
\<close>

lemma claim_donation_unmatched:
  assumes "donation_id < 2 ^ 63"
    and "\<forall>d\<in>set (rows s). id' d \<noteq> Some (int donation_id)"
  shows "claim_donation real_text fault s donation_id =
     (s, Inr \<lparr>body = PyDict [(''error'', PyStr ''Donation not found'')], code = 404\<rparr>)"
proof -
  from assms(1) have "int donation_id < int (2 ^ 63)"
    by (simp only: of_nat_less_iff)
  then have "int64 (int donation_id)"
    by (simp add: int64_def)
  then have "query_get s (int donation_id) = Inr None"
    using assms(2) by (simp add: query_get_def find_None_iff)
  then show ?thesis by (simp add: claim_donation_def claim_finish_def)
qed

text \<open>
  C6. When the commit of \<^verbatim>\<open>add_donation\<close> or of \<^verbatim>\<open>claim_donation\<close> raises, the handler
  rolls back and answers 500, the session is exactly as it was before the request, and
  \<^verbatim>\<open>get_donations\<close> lists what it listed before.
\<close>

theorem commit_failure_rolls_back:
  assumes "pending s = []"
  shows "(map_of kvs ''quantity'' = Some q \<and>
          new_donation container_repr
            (calculate_distance_to_receiver u (dict_get kvs ''donorAddress'' (PyStr [])))
            (PyDict kvs) = Inr d \<and>
          session_commit real_text fault (session_add d s) = Inl e \<longrightarrow>
            add_donation container_repr real_text u fault s (PyDict kvs) =
              (s, Inr \<lparr>body = PyDict [(''error'', PyStr ''Failed to save donation to database'')],
                       code = 500\<rparr>) \<and>
            get_donations (fst (add_donation container_repr real_text u fault s (PyDict kvs))) = get_donations s) \<and>
         (query_get s (int donation_id) = Inr (Some c) \<and> status c = Some ''pending'' \<and>
          session_commit real_text fault
            (s\<lparr>pending := pending s @ [SetStatus (int donation_id) ''claimed'']\<rparr>) = Inl e' \<longrightarrow>
            claim_donation real_text fault s donation_id =
              (s, Inr \<lparr>body = PyDict [(''error'', PyStr ''Failed to update donation status'')],
                       code = 500\<rparr>) \<and>
            get_donations (fst (claim_donation real_text fault s donation_id)) = get_donations s)"
proof (intro conjI impI)
  assume a: "map_of kvs ''quantity'' = Some q \<and>
          new_donation container_repr
            (calculate_distance_to_receiver u (dict_get kvs ''donorAddress'' (PyStr [])))
            (PyDict kvs) = Inr d \<and>
          session_commit real_text fault (session_add d s) = Inl e"
  then have ne: "kvs \<noteq> []" by auto
  have rb: "session_rollback (session_add d s) = s"
    using assms by (simp add: session_add_def rollback_fresh)
  show r: "add_donation container_repr real_text u fault s (PyDict kvs) =
              (s, Inr \<lparr>body = PyDict [(''error'', PyStr ''Failed to save donation to database'')],
                       code = 500\<rparr>)"
    using a ne rb by (simp add: add_donation_def Let_def)
  show "get_donations (fst (add_donation container_repr real_text u fault s (PyDict kvs))) = get_donations s"
    by (simp add: r)
next
  assume a: "query_get s (int donation_id) = Inr (Some c) \<and> status c = Some ''pending'' \<and>
          session_commit real_text fault
            (s\<lparr>pending := pending s @ [SetStatus (int donation_id) ''claimed'']\<rparr>) = Inl e'"
  have rb: "session_rollback (s\<lparr>pending := pending s @ [SetStatus (int donation_id) ''claimed'']\<rparr>) = s"
    using assms by (rule rollback_fresh)
  show r: "claim_donation real_text fault s donation_id =
              (s, Inr \<lparr>body = PyDict [(''error'', PyStr ''Failed to update donation status'')],
                       code = 500\<rparr>)"
    using a rb by (simp add: claim_donation_def claim_finish_def Let_def)
  show "get_donations (fst (claim_donation real_text fault s donation_id)) = get_donations s"
    by (simp add: r)
qed


section \<open>Claiming a donation\<close>

lemma find_by_key:
  "distinct (map f xs) \<Longrightarrow> d \<in> set xs \<Longrightarrow> find (\<lambda>e. f e = f d) xs = Some d"
  by (induction xs) force+

lemma query_get_member:
  assumes "distinct (map id' (rows s))" and "d \<in> set (rows s)" and "id' d = Some k"
    and "int64 k"
  shows "query_get s k = Inr (Some d)"
  using find_by_key [of id' "rows s" d] assms by (simp add: query_get_def)

lemma query_get_SomeD:
  "query_get s k = Inr (Some d) \<Longrightarrow> d \<in> set (rows s) \<and> id' d = Some k \<and> int64 k"
  by (auto simp: query_get_def find_Some_iff split: if_splits)

lemma key_unique:
  assumes "distinct (map id' rs)" and "d \<in> set rs" and "e \<in> set rs" and "id' e = id' d"
  shows "e = d"
  using assms by (meson distinct_map inj_onD)

lemma set_status_only:
  assumes "distinct (map id' rs)" and "d \<in> set rs" and "id' d = Some k"
  shows "map (\<lambda>e. if id' e = Some k then e\<lparr>status := Some st\<rparr> else e) rs =
         map (\<lambda>e. if e = d then d\<lparr>status := Some st\<rparr> else e) rs"
proof (rule map_cong [OF refl])
  fix e assume "e \<in> set rs"
  then show "(if id' e = Some k then e\<lparr>status := Some st\<rparr> else e) =
             (if e = d then d\<lparr>status := Some st\<rparr> else e)"
    using key_unique [OF assms(1,2), of e] assms(3) by (cases "e = d") auto
qed

lemma query_get_after_set_status:
  assumes "query_get s k = Inr (Some d)"
  shows "query_get \<lparr>rows = map (\<lambda>e. if id' e = Some k then e\<lparr>status := Some st\<rparr> else e) (rows s),
                    pending = []\<rparr> k = Inr (Some (d\<lparr>status := Some st\<rparr>))"
proof -
  have "find (\<lambda>d. id' d = Some k) (map (\<lambda>e. if id' e = Some k then e\<lparr>status := Some st\<rparr> else e) rs)
      = map_option (\<lambda>e. e\<lparr>status := Some st\<rparr>) (find (\<lambda>d. id' d = Some k) rs)"
    for rs :: "donation list"
    by (induction rs) simp_all
  then show ?thesis using assms by (simp add: query_get_def split: if_splits)
qed

text \<open>The rest of the body of \<^verbatim>\<open>claim_donation\<close>, on the instance the lookup returned.\<close>

lemma claim_finish_pending:
  assumes "pending s = []" and "status d = Some ''pending''"
  shows "claim_finish real_text fault s donation_id (Some d) =
     (if fault
      then (s, Inr \<lparr>body = PyDict [(''error'', PyStr ''Failed to update donation status'')],
                    code = 500\<rparr>)
      else (\<lparr>rows = map (\<lambda>e. if id' e = Some (int donation_id)
                                then e\<lparr>status := Some ''claimed''\<rparr> else e) (rows s),
              pending = []\<rparr>,
            Inr \<lparr>body = PyDict [(''message'', PyStr (''Donation '' @ show_nat donation_id
                                   @ '' claimed successfully''))],
                 code = 200\<rparr>))"
proof -
  have c: "session_commit real_text fault
      (s\<lparr>pending := pending s @ [SetStatus (int donation_id) ''claimed'']\<rparr>) =
     (if fault then Inl OperationalError
      else Inr \<lparr>rows = map (\<lambda>e. if id' e = Some (int donation_id)
                                then e\<lparr>status := Some ''claimed''\<rparr> else e) (rows s),
                pending = []\<rparr>)"
    using assms(1) by (rule commit_set_status)
  have r: "session_rollback (s\<lparr>pending := pending s @ [SetStatus (int donation_id) ''claimed'']\<rparr>) = s"
    using assms(1) by (rule rollback_fresh)
  show ?thesis
    unfolding claim_finish_def Let_def c r
    by (simp add: assms(2))
qed

lemma claim_finish_not_pending:
  assumes "status d \<noteq> Some ''pending''"
  shows "claim_finish real_text fault s donation_id (Some d) =
     (s, Inr \<lparr>body = PyDict [(''message'', PyStr (''Donation '' @ show_nat donation_id
                                @ '' is already '' @ column_str (status d)))],
              code = 400\<rparr>)"
  using assms by (simp add: claim_finish_def)

lemma claim_donation_found:
  assumes "query_get s (int donation_id) = Inr (Some d)"
  shows "claim_donation real_text fault s donation_id =
         claim_finish real_text fault s donation_id (Some d)"
  using assms by (simp add: claim_donation_def)

lemma claim_donation_pending:
  assumes "pending s = []" and "query_get s (int donation_id) = Inr (Some d)"
    and "status d = Some ''pending''"
  shows "claim_donation real_text fault s donation_id =
     (if fault
      then (s, Inr \<lparr>body = PyDict [(''error'', PyStr ''Failed to update donation status'')],
                    code = 500\<rparr>)
      else (\<lparr>rows = map (\<lambda>e. if id' e = Some (int donation_id)
                                then e\<lparr>status := Some ''claimed''\<rparr> else e) (rows s),
              pending = []\<rparr>,
            Inr \<lparr>body = PyDict [(''message'', PyStr (''Donation '' @ show_nat donation_id
                                   @ '' claimed successfully''))],
                 code = 200\<rparr>))"
  unfolding claim_donation_found [OF assms(2)]
  using assms(1,3) by (rule claim_finish_pending)

lemma claim_donation_not_pending:
  assumes "query_get s (int donation_id) = Inr (Some d)" and "status d \<noteq> Some ''pending''"
  shows "claim_donation real_text fault s donation_id =
     (s, Inr \<lparr>body = PyDict [(''message'', PyStr (''Donation '' @ show_nat donation_id
                                @ '' is already '' @ column_str (status d)))],
              code = 400\<rparr>)"
  unfolding claim_donation_found [OF assms(1)]
  using assms(2) by (rule claim_finish_not_pending)

text \<open>
  C1. In a table with distinct primary keys, take a row \<open>d\<close> with key \<open>donation_id\<close>, a
  key of 64 bits as every stored key is. If its status is \<^verbatim>\<open>pending\<close> and the commit
  succeeds, \<^verbatim>\<open>claim_donation\<close> sets the status of \<open>d\<close>, and of no other row, to
  \<^verbatim>\<open>claimed\<close> and answers 200 with the confirmation; a second claim of the same key then
  answers 400 and returns the session unchanged. If the status of \<open>d\<close> is not
  \<^verbatim>\<open>pending\<close>, the claim changes nothing and answers 400 with a message that states the
  status.
\<close>

theorem claim_donation_guarded:
  assumes pk: "distinct (map id' (rows s))" and fresh: "pending s = []"
    and mem: "d \<in> set (rows s)" and key: "id' d = Some (int donation_id)"
    and rng: "donation_id < 2 ^ 63"
  shows "(status d = Some ''pending'' \<longrightarrow>
            claim_donation real_text False s donation_id =
              (\<lparr>rows = map (\<lambda>e. if e = d then d\<lparr>status := Some ''claimed''\<rparr> else e) (rows s),
                pending = []\<rparr>,
               Inr \<lparr>body = PyDict [(''message'', PyStr (''Donation '' @ show_nat donation_id
                                      @ '' claimed successfully''))],
                    code = 200\<rparr>) \<and>
            claim_donation real_text fault
                (fst (claim_donation real_text False s donation_id)) donation_id =
              (fst (claim_donation real_text False s donation_id),
               Inr \<lparr>body = PyDict [(''message'', PyStr (''Donation '' @ show_nat donation_id
                                      @ '' is already claimed''))],
                    code = 400\<rparr>)) \<and>
         (status d \<noteq> Some ''pending'' \<longrightarrow>
            claim_donation real_text fault s donation_id =
              (s, Inr \<lparr>body = PyDict [(''message'', PyStr (''Donation '' @ show_nat donation_id
                                         @ '' is already '' @ column_str (status d)))],
                       code = 400\<rparr>))"
proof -
  from rng have "int donation_id < int (2 ^ 63)"
    by (simp only: of_nat_less_iff)
  then have k64: "int64 (int donation_id)"
    by (simp add: int64_def)
  have q: "query_get s (int donation_id) = Inr (Some d)"
    using pk mem key k64 by (rule query_get_member)
  let ?s' = "\<lparr>rows = map (\<lambda>e. if id' e = Some (int donation_id)
                                then e\<lparr>status := Some ''claimed''\<rparr> else e) (rows s),
              pending = []\<rparr>"
  have first: "claim_donation real_text False s donation_id =
      (?s', Inr \<lparr>body = PyDict [(''message'', PyStr (''Donation '' @ show_nat donation_id
                                  @ '' claimed successfully''))],
                code = 200\<rparr>)" if "status d = Some ''pending''"
    using claim_donation_pending [OF fresh q that, of real_text False] by simp
  have q': "query_get ?s' (int donation_id) = Inr (Some (d\<lparr>status := Some ''claimed''\<rparr>))"
    using q by (rule query_get_after_set_status)
  have second: "claim_donation real_text fault ?s' donation_id =
      (?s', Inr \<lparr>body = PyDict [(''message'', PyStr (''Donation '' @ show_nat donation_id
                                  @ '' is already claimed''))],
                code = 400\<rparr>)"
    using claim_donation_not_pending [OF q', of real_text fault] by (simp add: column_str_def)
  have only: "rows ?s' = map (\<lambda>e. if e = d then d\<lparr>status := Some ''claimed''\<rparr> else e) (rows s)"
    using set_status_only [OF pk mem key] by simp
  show ?thesis
  proof (intro conjI impI)
    assume p: "status d = Some ''pending''"
    show "claim_donation real_text False s donation_id =
              (\<lparr>rows = map (\<lambda>e. if e = d then d\<lparr>status := Some ''claimed''\<rparr> else e) (rows s),
                pending = []\<rparr>,
               Inr \<lparr>body = PyDict [(''message'', PyStr (''Donation '' @ show_nat donation_id
                                      @ '' claimed successfully''))],
                    code = 200\<rparr>)"
      using first [OF p] only by simp
    show "claim_donation real_text fault
                (fst (claim_donation real_text False s donation_id)) donation_id =
              (fst (claim_donation real_text False s donation_id),
               Inr \<lparr>body = PyDict [(''message'', PyStr (''Donation '' @ show_nat donation_id
                                      @ '' is already claimed''))],
                    code = 400\<rparr>)"
      using second by (simp only: first [OF p] fst_conv)
  next
    assume "status d \<noteq> Some ''pending''"
    with q show "claim_donation real_text fault s donation_id =
              (s, Inr \<lparr>body = PyDict [(''message'', PyStr (''Donation '' @ show_nat donation_id
                                         @ '' is already '' @ column_str (status d)))],
                       code = 400\<rparr>)"
      by (rule claim_donation_not_pending)
  qed
qed

lemma fold_max_ge: "x \<in> set (i # js) \<Longrightarrow> x \<le> fold max js (i :: int)"
proof -
  assume "x \<in> set (i # js)"
  then have "x \<le> Max (set (i # js))"
    by (intro Max_ge) simp_all
  then show ?thesis
    by (simp only: Max.set_eq_fold)
qed

lemma next_id_above:
  fixes rs :: "donation list"
  assumes "d \<in> set rs" and "id' d = Some i"
  shows "i < next_id rs"
proof -
  from assms have m: "i \<in> set (List.map_filter id' rs)"
    by (force simp: map_filter_def)
  then obtain j js where e: "List.map_filter id' rs = j # js"
    by (cases "List.map_filter id' rs") auto
  with m have "i \<le> fold max js j"
    using fold_max_ge [of i j js] by simp
  then show ?thesis by (simp add: next_id_def e)
qed

lemma next_id_fresh:
  fixes rs :: "donation list"
  shows "Some (next_id rs) \<notin> id' ` set rs"
proof
  assume "Some (next_id rs) \<in> id' ` set rs"
  then obtain d where "d \<in> set rs" and "id' d = Some (next_id rs)"
    by force
  then have "next_id rs < next_id rs" by (rule next_id_above)
  then show False by simp
qed

lemma session_inv_add:
  assumes "session_inv s"
  shows "session_inv (fst (add_donation container_repr real_text u fault s new_donation_data))"
proof -
  from assms have fresh: "pending s = []" by (simp add: session_inv_def)
  from add_donation_state [OF fresh, of container_repr real_text u fault new_donation_data]
  show ?thesis
  proof
    assume "fst (add_donation container_repr real_text u fault s new_donation_data) = s"
    with assms show ?thesis by simp
  next
    assume "\<exists>d. id' d = None \<and> status d = None \<and>
          distance d = PyStr (format_1f u @ '' mi'') \<and>
          fst (add_donation container_repr real_text u fault s new_donation_data) =
            \<lparr>rows = rows s @ [with_defaults (next_id (rows s)) d], pending = []\<rparr>"
    then obtain d where d: "id' d = None" "status d = None"
      and r: "fst (add_donation container_repr real_text u fault s new_donation_data) =
            \<lparr>rows = rows s @ [with_defaults (next_id (rows s)) d], pending = []\<rparr>"
      by blast
    let ?n = "with_defaults (next_id (rows s)) d"
    have n: "id' ?n = Some (next_id (rows s))" "status ?n = Some ''pending''"
      using d by (simp_all add: with_defaults_def default_status_def)
    have "distinct (map id' (rows s @ [?n]))"
      using assms next_id_fresh [of "rows s"] by (simp add: session_inv_def n)
    moreover have "\<forall>e\<in>set (rows s @ [?n]). id' e \<noteq> None \<and>
         (status e = Some ''pending'' \<or> status e = Some ''claimed'')"
      using assms by (simp add: session_inv_def n)
    ultimately show ?thesis
      unfolding r session_inv_def by simp
  qed
qed

lemma claim_donation_state:
  assumes "pending s = []"
  shows "fst (claim_donation real_text fault s donation_id) = s \<or>
     (\<exists>d. query_get s (int donation_id) = Inr (Some d) \<and> status d = Some ''pending'' \<and>
          fst (claim_donation real_text fault s donation_id) =
            \<lparr>rows = map (\<lambda>e. if id' e = Some (int donation_id)
                               then e\<lparr>status := Some ''claimed''\<rparr> else e) (rows s),
             pending = []\<rparr>)"
proof (cases "query_get s (int donation_id)")
  case (Inl e)
  then show ?thesis by (simp add: claim_donation_def)
next
  case (Inr donation)
  show ?thesis
  proof (cases donation)
    case None
    with Inr show ?thesis by (simp add: claim_donation_def claim_finish_def)
  next
    case (Some d)
    with Inr have q: "query_get s (int donation_id) = Inr (Some d)" by simp
    show ?thesis
    proof (cases "status d = Some ''pending''")
      case True
      from claim_donation_pending [OF assms q True, of real_text fault] q True
      show ?thesis by (cases fault) simp_all
    next
      case False
      from claim_donation_not_pending [OF q False, of real_text fault]
      show ?thesis by simp
    qed
  qed
qed

lemma session_inv_claim:
  assumes "session_inv s"
  shows "session_inv (fst (claim_donation real_text fault s donation_id))"
proof -
  from assms have fresh: "pending s = []" by (simp add: session_inv_def)
  from claim_donation_state [OF fresh, of real_text fault donation_id]
  show ?thesis
  proof
    assume "fst (claim_donation real_text fault s donation_id) = s"
    with assms show ?thesis by simp
  next
    let ?g = "\<lambda>e. if id' e = Some (int donation_id) then e\<lparr>status := Some ''claimed''\<rparr> else e"
    assume "\<exists>d. query_get s (int donation_id) = Inr (Some d) \<and> status d = Some ''pending'' \<and>
          fst (claim_donation real_text fault s donation_id) = \<lparr>rows = map ?g (rows s), pending = []\<rparr>"
    then have r: "fst (claim_donation real_text fault s donation_id) = \<lparr>rows = map ?g (rows s), pending = []\<rparr>"
      by blast
    have "map id' (map ?g (rows s)) = map id' (rows s)"
      by (simp add: comp_def)
    then have "distinct (map id' (map ?g (rows s)))"
      using assms by (simp only: session_inv_def)
    moreover have "\<forall>e\<in>set (map ?g (rows s)). id' e \<noteq> None \<and>
         (status e = Some ''pending'' \<or> status e = Some ''claimed'')"
      using assms by (auto simp: session_inv_def)
    ultimately show ?thesis
      unfolding r session_inv_def by simp
  qed
qed

lemma session_inv_handle:
  assumes "session_inv s"
  shows "session_inv (fst (handle container_repr real_text u fault req s))"
proof (cases req)
  case GetDonations
  with assms show ?thesis by (simp add: handle_def)
next
  case (AddDonation x)
  with session_inv_add [OF assms] show ?thesis by (simp add: handle_def)
next
  case (ClaimDonation k)
  with session_inv_claim [OF assms, of real_text fault k] show ?thesis
    by (simp add: handle_def)
qed

lemma reachable_inv: "reachable s \<Longrightarrow> session_inv s"
proof (induction rule: reachable.induct)
  case start
  show ?case by (simp add: session_inv_def)
next
  case (step s container_repr real_text u fault req)
  then show ?case by (simp add: session_inv_handle)
qed

lemma handle_state:
  assumes "pending s = []"
  shows "fst (handle container_repr real_text u fault req s) = s \<or>
     (\<exists>d. id' d = None \<and> status d = None \<and>
          fst (handle container_repr real_text u fault req s) =
            \<lparr>rows = rows s @ [with_defaults (next_id (rows s)) d], pending = []\<rparr>) \<or>
     (\<exists>k d. query_get s k = Inr (Some d) \<and> status d = Some ''pending'' \<and>
          fst (handle container_repr real_text u fault req s) =
            \<lparr>rows = map (\<lambda>e. if id' e = Some k then e\<lparr>status := Some ''claimed''\<rparr> else e) (rows s),
             pending = []\<rparr>)"
proof (cases req)
  case GetDonations
  then show ?thesis by (simp add: handle_def)
next
  case (AddDonation x)
  from add_donation_state [OF assms, of container_repr real_text u fault x]
  show ?thesis unfolding AddDonation handle_def request.case by blast
next
  case (ClaimDonation k)
  have "fst (handle container_repr real_text u fault (ClaimDonation k) s) =
        fst (claim_donation real_text fault s k)"
    by (simp add: handle_def)
  with claim_donation_state [OF assms, of real_text fault k]
  have "fst (handle container_repr real_text u fault (ClaimDonation k) s) = s \<or>
     (\<exists>d. query_get s (int k) = Inr (Some d) \<and> status d = Some ''pending'' \<and>
          fst (handle container_repr real_text u fault (ClaimDonation k) s) =
            \<lparr>rows = map (\<lambda>e. if id' e = Some (int k) then e\<lparr>status := Some ''claimed''\<rparr> else e) (rows s),
             pending = []\<rparr>)"
    by simp
  then show ?thesis unfolding ClaimDonation by blast
qed

text \<open>
  C4. In every session reachable from the empty table through the three routes, every
  row has status \<^verbatim>\<open>pending\<close> or \<^verbatim>\<open>claimed\<close>, none has \<^verbatim>\<open>delivered\<close>, and any further
  request keeps every row in place with its key, its status either unchanged or moved
  from \<^verbatim>\<open>pending\<close> to \<^verbatim>\<open>claimed\<close>; a row it adds has status \<^verbatim>\<open>pending\<close>.
\<close>

theorem reachable_status_invariant:
  assumes "reachable s"
  shows "(\<forall>d\<in>set (rows s). status d = Some ''pending'' \<or> status d = Some ''claimed'') \<and>
         (\<forall>d\<in>set (rows s). status d \<noteq> Some ''delivered'') \<and>
         length (rows s) \<le> length (rows (fst (handle container_repr real_text u fault req s))) \<and>
         (\<forall>i<length (rows s).
            id' (rows (fst (handle container_repr real_text u fault req s)) ! i) = id' (rows s ! i) \<and>
            (status (rows (fst (handle container_repr real_text u fault req s)) ! i) = status (rows s ! i) \<or>
             (status (rows s ! i) = Some ''pending'' \<and>
              status (rows (fst (handle container_repr real_text u fault req s)) ! i) = Some ''claimed''))) \<and>
         (\<forall>i. length (rows s) \<le> i \<and> i < length (rows (fst (handle container_repr real_text u fault req s))) \<longrightarrow>
            status (rows (fst (handle container_repr real_text u fault req s)) ! i) = Some ''pending'')"
proof -
  let ?s' = "fst (handle container_repr real_text u fault req s)"
  from assms have inv: "session_inv s" by (rule reachable_inv)
  then have fresh: "pending s = []" and pk: "distinct (map id' (rows s))"
    and st: "\<forall>d\<in>set (rows s). status d = Some ''pending'' \<or> status d = Some ''claimed''"
    by (simp_all add: session_inv_def)
  from st have nd: "\<forall>d\<in>set (rows s). status d \<noteq> Some ''delivered''"
    by auto
  have trans: "length (rows s) \<le> length (rows ?s') \<and>
         (\<forall>i<length (rows s).
            id' (rows ?s' ! i) = id' (rows s ! i) \<and>
            (status (rows ?s' ! i) = status (rows s ! i) \<or>
             (status (rows s ! i) = Some ''pending'' \<and> status (rows ?s' ! i) = Some ''claimed''))) \<and>
         (\<forall>i. length (rows s) \<le> i \<and> i < length (rows ?s') \<longrightarrow>
            status (rows ?s' ! i) = Some ''pending'')"
    using handle_state [OF fresh, of container_repr real_text u fault req]
  proof (elim disjE exE conjE)
    assume "?s' = s"
    then show ?thesis by auto
  next
    fix d assume d: "id' d = None" "status d = None"
      and r: "?s' = \<lparr>rows = rows s @ [with_defaults (next_id (rows s)) d], pending = []\<rparr>"
    let ?n = "with_defaults (next_id (rows s)) d"
    have n: "status ?n = Some ''pending''"
      using d by (simp add: with_defaults_def default_status_def)
    have rs: "rows ?s' = rows s @ [?n]"
      by (simp add: r)
    have old: "rows ?s' ! i = rows s ! i" if "i < length (rows s)" for i
      using that by (simp add: rs nth_append)
    have new: "rows ?s' ! i = ?n" if "length (rows s) \<le> i" and "i < length (rows ?s')" for i
    proof -
      from that have "i = length (rows s)" by (simp add: rs)
      then show ?thesis by (simp add: rs)
    qed
    have "length (rows s) \<le> length (rows ?s')"
      by (simp add: rs)
    with old new n show ?thesis by simp
  next
    fix k d assume q: "query_get s k = Inr (Some d)" and p: "status d = Some ''pending''"
      and r: "?s' = \<lparr>rows = map (\<lambda>e. if id' e = Some k then e\<lparr>status := Some ''claimed''\<rparr> else e) (rows s),
             pending = []\<rparr>"
    let ?g = "\<lambda>e. if id' e = Some k then e\<lparr>status := Some ''claimed''\<rparr> else e"
    from q have mem: "d \<in> set (rows s)" and key: "id' d = Some k"
      using query_get_SomeD by blast+
    have rs: "rows ?s' = map ?g (rows s)"
      by (simp add: r)
    have len: "length (rows ?s') = length (rows s)"
      by (simp add: rs)
    have row: "id' (rows ?s' ! i) = id' (rows s ! i) \<and>
            (status (rows ?s' ! i) = status (rows s ! i) \<or>
             (status (rows s ! i) = Some ''pending'' \<and> status (rows ?s' ! i) = Some ''claimed''))"
      if i: "i < length (rows s)" for i
    proof (cases "id' (rows s ! i) = Some k")
      case True
      from i True have "rows s ! i = d"
        using key_unique [OF pk mem, of "rows s ! i"] key by simp
      with p i show ?thesis by (simp add: rs)
    next
      case False
      with i show ?thesis by (simp add: rs)
    qed
    from row len show ?thesis by auto
  qed
  show ?thesis by (rule conjI [OF st conjI [OF nd trans]])
qed

section \<open>Claims that overlap\<close>

text \<open>With one request, the cut handler is the handler.\<close>

lemma overlapping_claims_one:
  "overlapping_claims real_text 1 s donation_id =
     (case claim_donation real_text False s donation_id of (s', r) \<Rightarrow> (s', [r]))"
  by (simp add: overlapping_claims_def claim_donation_def split: sum.splits prod.splits)

text \<open>
  Every claim that loaded the row while it was pending succeeds, whatever the claims
  before it wrote.
\<close>

lemma finish_all_stale:
  assumes "status d = Some ''pending''" and "pending s = []"
  shows "finish_all real_text s donation_id (replicate n (Some d)) =
     (if n = 0 then s
      else \<lparr>rows = map (\<lambda>e. if id' e = Some (int donation_id)
                               then e\<lparr>status := Some ''claimed''\<rparr> else e) (rows s),
             pending = []\<rparr>,
      replicate n
        (Inr \<lparr>body = PyDict [(''message'', PyStr (''Donation '' @ show_nat donation_id
                                 @ '' claimed successfully''))],
              code = 200\<rparr>))"
  using assms(2)
proof (induction n arbitrary: s)
  case 0
  show ?case by simp
next
  case (Suc n)
  let ?g = "\<lambda>e. if id' e = Some (int donation_id) then e\<lparr>status := Some ''claimed''\<rparr> else e"
  let ?s1 = "\<lparr>rows = map ?g (rows s), pending = []\<rparr>"
  let ?ok = "Inr \<lparr>body = PyDict [(''message'', PyStr (''Donation '' @ show_nat donation_id
                                 @ '' claimed successfully''))],
              code = 200\<rparr> :: py_error + response"
  have one: "claim_finish real_text False s donation_id (Some d) = (?s1, ?ok)"
    using claim_finish_pending [OF Suc.prems assms(1), of real_text False donation_id] by simp
  have p1: "pending ?s1 = []" by simp
  have idem: "map ?g (map ?g (rows s)) = map ?g (rows s)"
    by simp
  have rest: "finish_all real_text ?s1 donation_id (replicate n (Some d)) =
      (if n = 0 then ?s1 else ?s1, replicate n ?ok)"
    using Suc.IH [OF p1] by (simp only: idem session.select_convs)
  show ?case
    by (simp add: one rest)
qed

lemma overlapping_claims_all_succeed:
  assumes "query_get s (int donation_id) = Inr (Some d)"
    and "status d = Some ''pending''" and "pending s = []"
  shows "snd (overlapping_claims real_text n s donation_id) =
     replicate n
       (Inr \<lparr>body = PyDict [(''message'', PyStr (''Donation '' @ show_nat donation_id
                                @ '' claimed successfully''))],
             code = 200\<rparr>)"
  by (simp add: overlapping_claims_def assms(1) finish_all_stale [OF assms(2,3)])

section \<open>The sample run\<close>

lemma example_session_eq:
  "example_session =
     \<lparr>rows = [\<lparr>id' = Some 1, name = PyStr ''New Food Donation'',
               servings = PyStr ''20 Servings'', readyTime = PyStr ''ASAP'',
               foodType = PyNone, status = Some ''pending'', icon = Some default_icon,
               donor = PyStr ''Web Form User'', donorAddress = PyStr ''12 Main St'',
               donor_phone = PyNone, receiverAddress = PyNone, receiverPhone = PyNone,
               distance = PyStr ''0.8 mi''\<rparr>],
      pending = []\<rparr>"
  by code_simp

lemma show_nat_1: "show_nat (Suc 0) = ''1''"
  by code_simp

lemma show_int_20: "show_int 20 = ''20''"
  by code_simp

lemma reachable_example: "reachable example_session"
proof -
  have "reachable (fst (handle example_repr example_real_text (3 / 4) False
                          (AddDonation example_payload) \<lparr>rows = [], pending = []\<rparr>))"
    by (rule reachable.step [OF reachable.start])
  then show ?thesis
    by (simp add: handle_def example_session_def)
qed

lemma example_payload_storable:
  "payload_storable example_real_text
     [(''quantity'', PyInt 20), (''donorAddress'', PyStr ''12 Main St'')]"
  by (simp add: payload_storable_def binds_def dict_get_def)


theorem add_donation_defaults_witness:
  "\<exists>d. fst (add_donation example_repr example_real_text (3 / 4) False
               \<lparr>rows = [], pending = []\<rparr> example_payload) =
          \<lparr>rows = [d], pending = []\<rparr> \<and>
        donor d = PyStr ''Web Form User'' \<and> name d = PyStr ''New Food Donation'' \<and>
        readyTime d = PyStr ''ASAP'' \<and> servings d = PyStr ''20 Servings'' \<and>
        status d = Some ''pending''"
proof -
  have q: "map_of [(''quantity'', PyInt 20), (''donorAddress'', PyStr ''12 Main St'')] ''quantity''
             = Some (PyInt 20)"
    by simp
  have f: "pending \<lparr>rows = [], pending = []\<rparr> = []" by simp
  have nf: "\<not> False" by simp
  from add_donation_defaults [OF q f nf example_payload_storable, of example_repr "3 / 4"]
  show ?thesis
    by (auto simp: example_payload_def show_int_20)
qed

theorem add_donation_null_quantity_witness:
  "\<exists>d r. add_donation example_repr example_real_text (3 / 4) False \<lparr>rows = [], pending = []\<rparr>
            (PyDict [(''quantity'', PyNone)]) = (\<lparr>rows = [d], pending = []\<rparr>, Inr r) \<and>
         code r = 201 \<and> servings d = PyStr ''None Servings''"
proof -
  have q: "map_of [(''quantity'', PyNone)] ''quantity'' = Some PyNone" by simp
  have f: "pending \<lparr>rows = [], pending = []\<rparr> = []" by simp
  have nf: "\<not> False" by simp
  have st: "payload_storable example_real_text [(''quantity'', PyNone)]"
    by (simp add: payload_storable_def binds_def dict_get_def)
  from add_donation_null_quantity [OF q f nf st, of example_repr "3 / 4"]
  show ?thesis by simp
qed

text \<open>
  C5, the code at the failing input. No row of the sample table has the key
  \<open>9223372036854775808\<close>, the first beyond 64 bits. The lookup, the first line of
  \<^verbatim>\<open>claim_donation\<close> and outside any \<^verbatim>\<open>try\<close>, raises \<^verbatim>\<open>OverflowError\<close>, which leaves the
  function: there is no 404 response. The key \<open>2\<close>, as little in the table, gets the 404.
  Neither changes a row.
\<close>

theorem claim_donation_huge_id_raises:
  "claim_donation example_real_text False example_session 9223372036854775808 =
     (example_session, Inl OverflowError) \<and>
   claim_donation example_real_text False example_session 2 =
     (example_session,
      Inr \<lparr>body = PyDict [(''error'', PyStr ''Donation not found'')], code = 404\<rparr>)"
proof -
  have "\<not> int64 (int 9223372036854775808)"
    by (simp add: int64_def)
  then have "claim_donation example_real_text False example_session 9223372036854775808 =
     (example_session, Inl OverflowError)"
    by (simp add: claim_donation_def query_get_def)
  moreover have "claim_donation example_real_text False example_session 2 =
     (example_session,
      Inr \<lparr>body = PyDict [(''error'', PyStr ''Donation not found'')], code = 404\<rparr>)"
    by (rule claim_donation_unmatched) (simp_all add: example_session_eq)
  ultimately show ?thesis by simp
qed


theorem commit_failure_rolls_back_witness:
  "add_donation example_repr example_real_text (3 / 4) True example_session example_payload =
     (example_session,
      Inr \<lparr>body = PyDict [(''error'', PyStr ''Failed to save donation to database'')],
           code = 500\<rparr>) \<and>
   get_donations (fst (add_donation example_repr example_real_text (3 / 4) True
                         example_session example_payload)) =
     get_donations example_session \<and>
   claim_donation example_real_text True example_session 1 =
     (example_session,
      Inr \<lparr>body = PyDict [(''error'', PyStr ''Failed to update donation status'')], code = 500\<rparr>)"
proof -
  let ?kvs = "[(''quantity'', PyInt 20), (''donorAddress'', PyStr ''12 Main St'')]"
  have p: "pending example_session = []"
    by (simp add: example_session_eq)
  have q: "map_of ?kvs ''quantity'' = Some (PyInt 20)" by simp
  obtain d where nd: "new_donation example_repr
            (calculate_distance_to_receiver (3 / 4) (dict_get ?kvs ''donorAddress'' (PyStr [])))
            (PyDict ?kvs) = Inr d"
    by (simp add: new_donation_dict)
  have cm: "session_commit example_real_text True (session_add d example_session) =
      Inl OperationalError"
    by (simp add: session_commit_def)
  obtain c where c: "query_get example_session (int 1) = Inr (Some c)"
    and st: "status c = Some ''pending''"
    by (simp add: example_session_eq query_get_def int64_def)
  have cm': "session_commit example_real_text True
      (example_session\<lparr>pending := pending example_session @ [SetStatus (int 1) ''claimed'']\<rparr>) =
      Inl OperationalError"
    by (simp add: session_commit_def)
  from commit_failure_rolls_back [OF p, of ?kvs "PyInt 20" example_repr "3 / 4" d
      example_real_text True OperationalError 1 c OperationalError]
    q nd cm c st cm'
  show ?thesis
    by (simp add: example_payload_def)
qed

theorem distance_ignores_payload_witness:
  "calculate_distance_to_receiver (3 / 4) (PyStr ''12 Main St'') =
     calculate_distance_to_receiver (3 / 4) (PyStr ''99 Oak Ave'') \<and>
   donorAddress (hd (rows example_session)) = PyStr ''12 Main St'' \<and>
   donorAddress (last (rows (fst (add_donation example_repr example_real_text (3 / 4) False
      example_session
      (PyDict [(''quantity'', PyStr ''3 trays''), (''donorAddress'', PyStr ''99 Oak Ave'')])))))
     = PyStr ''99 Oak Ave'' \<and>
   distance (hd (rows example_session)) =
   distance (last (rows (fst (add_donation example_repr example_real_text (3 / 4) False
      example_session
      (PyDict [(''quantity'', PyStr ''3 trays''), (''donorAddress'', PyStr ''99 Oak Ave'')])))))"
proof -
  let ?s0 = "\<lparr>rows = [], pending = []\<rparr>"
  let ?p2 = "PyDict [(''quantity'', PyStr ''3 trays''), (''donorAddress'', PyStr ''99 Oak Ave'')]"
  let ?s2 = "fst (add_donation example_repr example_real_text (3 / 4) False example_session ?p2)"
  have a: "fst (add_donation example_repr example_real_text (3 / 4) False ?s0 example_payload) =
      \<lparr>rows = rows ?s0 @ [hd (rows example_session)], pending = []\<rparr>"
    unfolding example_session_def [symmetric] by (simp add: example_session_eq)
  have b: "?s2 = \<lparr>rows = rows example_session @ [last (rows ?s2)], pending = []\<rparr>"
    by code_simp
  have p: "pending ?s0 = []" "pending example_session = []"
    by (simp_all add: example_session_eq)
  have a1: "donorAddress (hd (rows example_session)) = PyStr ''12 Main St''"
    by (simp add: example_session_eq)
  have a2: "donorAddress (last (rows ?s2)) = PyStr ''99 Oak Ave''"
    by code_simp
  from distance_ignores_payload [of "3 / 4" "PyStr ''12 Main St''" "PyStr ''99 Oak Ave''"
      ?s0 example_session example_repr example_real_text False example_payload
      "hd (rows example_session)" example_repr example_real_text False ?p2 "last (rows ?s2)"]
    a b p a1 a2
  show ?thesis by simp
qed

theorem claim_donation_guarded_witness:
  "status (hd (rows example_session)) = Some ''pending'' \<and>
   snd (claim_donation example_real_text False example_session 1) =
     Inr \<lparr>body = PyDict [(''message'', PyStr ''Donation 1 claimed successfully'')], code = 200\<rparr> \<and>
   map status (rows (fst (claim_donation example_real_text False example_session 1))) =
     [Some ''claimed''] \<and>
   claim_donation example_real_text False
       (fst (claim_donation example_real_text False example_session 1)) 1 =
     (fst (claim_donation example_real_text False example_session 1),
      Inr \<lparr>body = PyDict [(''message'', PyStr ''Donation 1 is already claimed'')], code = 400\<rparr>)"
proof -
  have pk: "distinct (map id' (rows example_session))"
    and fresh: "pending example_session = []"
    and mem: "hd (rows example_session) \<in> set (rows example_session)"
    and key: "id' (hd (rows example_session)) = Some (int 1)"
    and st: "status (hd (rows example_session)) = Some ''pending''"
    by (simp_all add: example_session_eq)
  have rng: "(1 :: nat) < 2 ^ 63" by simp
  note both = claim_donation_guarded [OF pk fresh mem key rng, of example_real_text False,
      THEN conjunct1, rule_format, OF st]
  note first = both [THEN conjunct1] and second = both [THEN conjunct2]
  have s': "fst (claim_donation example_real_text False example_session 1) =
      \<lparr>rows = [hd (rows example_session)\<lparr>status := Some ''claimed''\<rparr>], pending = []\<rparr>"
    by (simp only: first fst_conv) (simp add: example_session_eq)
  have r: "snd (claim_donation example_real_text False example_session 1) =
     Inr \<lparr>body = PyDict [(''message'', PyStr ''Donation 1 claimed successfully'')], code = 200\<rparr>"
    by (simp only: first snd_conv) (simp add: show_nat_1)
  have "claim_donation example_real_text False
       (fst (claim_donation example_real_text False example_session 1)) 1 =
     (fst (claim_donation example_real_text False example_session 1),
      Inr \<lparr>body = PyDict [(''message'', PyStr ''Donation 1 is already claimed'')], code = 400\<rparr>)"
    using second by (simp only: show_nat_1 One_nat_def append.simps)
  with st r s' show ?thesis
    by simp
qed

theorem reachable_status_invariant_witness:
  "reachable example_session \<and>
   map status (rows example_session) = [Some ''pending''] \<and>
   map status (rows (fst (handle example_repr example_real_text (3 / 4) False
                            (ClaimDonation 1) example_session))) =
     [Some ''claimed'']"
proof -
  have c: "map status (rows (fst (handle example_repr example_real_text (3 / 4) False
                            (ClaimDonation 1) example_session))) =
     [Some ''claimed'']"
    by code_simp
  from reachable_status_invariant [OF reachable_example, of example_repr example_real_text
      "3 / 4" False "ClaimDonation 1"] c reachable_example
  show ?thesis
    by (simp add: example_session_eq)
qed

text \<open>
  C8, the code at the failing schedule. Two claims of key \<open>1\<close> overlap on the sample
  table, where row \<open>1\<close> is pending: both do the lookup of the first line before either
  goes on, so both hold an instance whose status is \<^verbatim>\<open>pending\<close>, both pass the test,
  write and commit (the update has no condition on the status), and both answer 200.
  The row ends \<^verbatim>\<open>claimed\<close>, but two requests succeeded, not one.
\<close>

theorem overlapping_claims_both_succeed:
  "map status (rows example_session) = [Some ''pending''] \<and>
   snd (overlapping_claims example_real_text 2 example_session 1) =
     [Inr \<lparr>body = PyDict [(''message'', PyStr ''Donation 1 claimed successfully'')], code = 200\<rparr>,
      Inr \<lparr>body = PyDict [(''message'', PyStr ''Donation 1 claimed successfully'')], code = 200\<rparr>] \<and>
   map status (rows (fst (overlapping_claims example_real_text 2 example_session 1))) =
     [Some ''claimed'']"
  by code_simp

end
